theory Spec2Isabelle
  imports Main
begin

section \<open>Data model\<close>

text \<open>
  The handler of \<^verbatim>\<open>axes/handlers/database.py\<close> works on two Django models, on the
  request it is handed, on the process settings and on the lockout signal. Time is
  the value \<^verbatim>\<open>now()\<close> returns, passed to every handler as an argument; timestamps
  and durations are integers on one scale.
\<close>

type_synonym credentials = "(string \<times> string) list"

type_synonym query_dict = "(string \<times> string) list"

record request =
  REMOTE_ADDR :: string
  HTTP_USER_AGENT :: string
  PATH_INFO :: string
  HTTP_ACCEPT :: string
  GET :: query_dict
  POST :: query_dict

text \<open>The row of \<^verbatim>\<open>AccessAttempt\<close>, with the columns the handler writes.\<close>

record access_attempt =
  username :: "string option"
  ip_address :: string
  user_agent :: string
  get_data :: string
  post_data :: string
  http_accept :: string
  path_info :: string
  failures_since_start :: int
  attempt_time :: int

text \<open>The row of \<^verbatim>\<open>AccessLog\<close>; \<open>logout_time\<close> is null until a logout stamps it.\<close>

record access_log =
  log_username :: "string option"
  log_ip_address :: string
  log_user_agent :: string
  log_http_accept :: string
  log_path_info :: string
  log_attempt_time :: int
  log_trusted :: bool
  logout_time :: "int option"

text \<open>The keyword arguments of \<^verbatim>\<open>user_locked_out.send\<close>.\<close>

record lockout_signal =
  signal_request :: request
  signal_username :: "string option"
  signal_ip_address :: string

datatype level = ERROR | WARNING | INFO

datatype log_arg = S string | D int

type_synonym log_record = "level \<times> string \<times> log_arg list"

text \<open>
  What a handler can raise: the lockout exception, with its message, and Python's
  \<^verbatim>\<open>AttributeError\<close> for a method call on \<^verbatim>\<open>None\<close>.
\<close>

datatype exn = AxesSignalPermissionDenied string | AttributeError

text \<open>
  Everything a handler can change: the two tables, the signals sent and the lines
  logged, each in the order of the calls.
\<close>

record state =
  attempts :: "access_attempt list"
  access_logs :: "access_log list"
  signals :: "lockout_signal list"
  logged :: "log_record list"

text \<open>
  Modelled from the spec: the identification policies of the identity resolver, one of
  which the configuration selects; the last one groups by source address together with
  user agent.
\<close>

datatype policy =
  ByUsername | BySourceAddress | ByUsernameAndSourceAddress | ByUserAgentCombination

text \<open>
  Modelled from the spec: \<open>cooldown_period\<close> and \<open>identification_policy\<close>, the
  configuration the attempt store reads, which the handler's file does not name. The
  other fields are the settings the handler reads.
\<close>

record settings =
  AXES_FAILURE_LIMIT :: int
  cooldown_period :: int
  AXES_RESET_ON_SUCCESS :: bool
  AXES_DISABLE_ACCESS_LOG :: bool
  AXES_DISABLE_SUCCESS_ACCESS_LOG :: bool
  identification_policy :: policy

text \<open>
  The functions of \<^verbatim>\<open>axes.helpers\<close> and the two whitelist checks
  (\<^verbatim>\<open>AxesBaseHandler.is_whitelisted\<close> and
  \<^verbatim>\<open>axes.attempts.is_user_attempt_whitelisted\<close>) are imported by the handler and
  defined elsewhere. They read the request and the credentials only, so the handlers
  take them as parameters.
\<close>

record helpers =
  get_client_username :: "request \<Rightarrow> credentials \<Rightarrow> string option"
  get_client_ip_address :: "request \<Rightarrow> string"
  get_client_user_agent :: "request \<Rightarrow> string"
  get_client_path_info :: "request \<Rightarrow> string"
  get_client_http_accept :: "request \<Rightarrow> string"
  get_client_str :: "string option \<Rightarrow> string \<Rightarrow> string \<Rightarrow> string \<Rightarrow> string"
  get_credentials :: "string option \<Rightarrow> credentials"
  get_query_str :: "query_dict \<Rightarrow> string"
  is_whitelisted :: "request \<Rightarrow> credentials \<Rightarrow> bool"
  is_user_attempt_whitelisted :: "request \<Rightarrow> credentials \<Rightarrow> bool"

text \<open>
  A user object answers \<^verbatim>\<open>get_username()\<close>. The logout handler is also called with
  no user object (\<^verbatim>\<open>None\<close>, for a session nobody was logged in to), so it takes a
  \<open>user option\<close>.
\<close>

record user =
  get_username :: "string option"

section \<open>The attempt store\<close>

text \<open>
  Modelled from the spec: the identity resolver, which is not part of the handler's
  file. The key is the part of (username, source address, user agent) the policy groups
  by; two attempts belong to one identity when their keys are equal.
\<close>

fun identity_key ::
  "policy \<Rightarrow> string option \<Rightarrow> string \<Rightarrow> string \<Rightarrow> string option \<times> string \<times> string" where
  "identity_key ByUsername u ip ua = (u, [], [])"
| "identity_key BySourceAddress u ip ua = (None, ip, [])"
| "identity_key ByUsernameAndSourceAddress u ip ua = (u, ip, [])"
| "identity_key ByUserAgentCombination u ip ua = (None, ip, ua)"

definition client_key :: "helpers \<Rightarrow> settings \<Rightarrow> request \<Rightarrow> credentials \<Rightarrow> string option \<times> string \<times> string" where
  "client_key h cfg req cred =
     identity_key (identification_policy cfg) (get_client_username h req cred)
       (get_client_ip_address h req) (get_client_user_agent h req)"

definition attempt_key :: "settings \<Rightarrow> access_attempt \<Rightarrow> string option \<times> string \<times> string" where
  "attempt_key cfg a =
     identity_key (identification_policy cfg) (username a) (ip_address a) (user_agent a)"

text \<open>
  Modelled from the spec: the attempt records of the identity, whatever their age
  (the query \<^verbatim>\<open>reset\<close> deletes).
\<close>

definition filter_user_attempts ::
  "helpers \<Rightarrow> settings \<Rightarrow> request \<Rightarrow> credentials \<Rightarrow> access_attempt \<Rightarrow> bool" where
  "filter_user_attempts h cfg req cred a = (attempt_key cfg a = client_key h cfg req cred)"

text \<open>
  Modelled from the spec: a record is expired when its last attempt is older than the
  cool-off period, and active otherwise.
\<close>

definition expired :: "settings \<Rightarrow> int \<Rightarrow> access_attempt \<Rightarrow> bool" where
  "expired cfg t a = (attempt_time a < t - cooldown_period cfg)"

text \<open>
  Modelled from the spec: \<^verbatim>\<open>get_user_attempts\<close> of \<^verbatim>\<open>axes.attempts\<close>
  (\<^verbatim>\<open>find_active\<close>): the query for the active records of the identity. A query set
  is lazy, so it is the predicate that selects its rows.
\<close>

definition get_user_attempts ::
  "helpers \<Rightarrow> settings \<Rightarrow> request \<Rightarrow> credentials \<Rightarrow> int \<Rightarrow> access_attempt \<Rightarrow> bool" where
  "get_user_attempts h cfg req cred t a =
     (filter_user_attempts h cfg req cred a \<and> \<not> expired cfg t a)"

text \<open>
  Modelled from the spec: \<^verbatim>\<open>clean_expired_user_attempts\<close> of
  \<^verbatim>\<open>axes.attempts\<close> (\<^verbatim>\<open>sweep_expired\<close>): deletes every expired record, of any
  identity.
\<close>

definition clean_expired_user_attempts :: "settings \<Rightarrow> int \<Rightarrow> state \<Rightarrow> state" where
  "clean_expired_user_attempts cfg t s =
     s\<lparr>attempts := filter (\<lambda>a. \<not> expired cfg t a) (attempts s)\<rparr>"

text \<open>
  Modelled from the spec: \<^verbatim>\<open>reset_user_attempts\<close> of \<^verbatim>\<open>axes.attempts\<close>
  (\<^verbatim>\<open>reset\<close>): deletes the records of the identity and returns how many there were.
\<close>

definition reset_user_attempts ::
  "helpers \<Rightarrow> settings \<Rightarrow> request \<Rightarrow> credentials \<Rightarrow> state \<Rightarrow> int \<times> state" where
  "reset_user_attempts h cfg req cred s =
     (int (length (filter (filter_user_attempts h cfg req cred) (attempts s))),
      s\<lparr>attempts := filter (\<lambda>a. \<not> filter_user_attempts h cfg req cred a) (attempts s)\<rparr>)"

text \<open>
  \<^verbatim>\<open>aggregate(Max(...))\<close> is null on an empty query set.
\<close>

definition aggregate_Max :: "int list \<Rightarrow> int option" where
  "aggregate_Max xs = (if xs = [] then None else Some (Max (set xs)))"

definition emit :: "level \<Rightarrow> string \<Rightarrow> log_arg list \<Rightarrow> state \<Rightarrow> state" where
  "emit lv msg args s = s\<lparr>logged := logged s @ [(lv, msg, args)]\<rparr>"

section \<open>AxesDatabaseHandler\<close>

text \<open>\<^verbatim>\<open>x or 0\<close> is 0 when \<open>x\<close> is null or zero.\<close>

definition get_failures ::
  "helpers \<Rightarrow> settings \<Rightarrow> request \<Rightarrow> credentials \<Rightarrow> int \<Rightarrow> state \<Rightarrow> int" where
  "get_failures h cfg req cred t s =
     (case aggregate_Max
             (map failures_since_start (filter (get_user_attempts h cfg req cred t) (attempts s))) of
        None \<Rightarrow> 0
      | Some m \<Rightarrow> if m = 0 then 0 else m)"



definition separator :: string where
  "separator = ''\<newline>---------\<newline>''"

definition user_login_failed ::
  "helpers \<Rightarrow> settings \<Rightarrow> int \<Rightarrow> credentials \<Rightarrow> request option \<Rightarrow> state
     \<Rightarrow> (exn + unit) \<times> state" where
  "user_login_failed h cfg now credentials request s0 =
     (let s1 = clean_expired_user_attempts cfg now s0 in
      case request of
        None \<Rightarrow>
          (Inr (),
           emit ERROR
             ''AXES: AxesDatabaseHandler.user_login_failed does not function without a request.''
             [] s1)
      | Some req \<Rightarrow>
          let username = get_client_username h req credentials;
              ip_address = get_client_ip_address h req;
              user_agent = get_client_user_agent h req;
              path_info = get_client_path_info h req;
              http_accept = get_client_http_accept h req;
              client_str = get_client_str h username ip_address user_agent path_info;
              get_data = get_query_str h (GET req);
              post_data = get_query_str h (POST req)
          in
            if is_whitelisted h req credentials then
              (Inr (),
               emit INFO ''AXES: Login failed from whitelisted client %s.'' [S client_str] s1)
            else
              let failures_since_start = 1 + get_failures h cfg req credentials now s1;
                  s2 =
                    (if failures_since_start > 1 then
                       let s = emit WARNING
                                 ''AXES: Repeated login failure by %s. Count = %d of %d. Updating existing record in the database.''
                                 [S client_str, D failures_since_start, D (AXES_FAILURE_LIMIT cfg)]
                                 s1
                       in s\<lparr>attempts :=
                              map (\<lambda>a. if get_user_attempts h cfg req credentials now a then
                                         a\<lparr>get_data := access_attempt.get_data a @ separator @ get_data,
                                           post_data := access_attempt.post_data a @ separator @ post_data,
                                           http_accept := http_accept,
                                           path_info := path_info,
                                           failures_since_start := failures_since_start,
                                           attempt_time := now\<rparr>
                                       else a)
                                (attempts s)\<rparr>
                     else
                       let s = emit WARNING
                                 ''AXES: New login failure by %s. Creating new record in the database.''
                                 [S client_str] s1
                       in s\<lparr>attempts := attempts s @
                              [\<lparr>username = username,
                                ip_address = ip_address,
                                user_agent = user_agent,
                                get_data = get_data,
                                post_data = post_data,
                                http_accept = http_accept,
                                path_info = path_info,
                                failures_since_start = failures_since_start,
                                attempt_time = now\<rparr>]\<rparr>)
              in
                if failures_since_start \<ge> AXES_FAILURE_LIMIT cfg then
                  let s3 = emit WARNING ''AXES: Locking out %s after repeated login failures.''
                             [S client_str] s2;
                      s4 = s3\<lparr>signals := signals s3 @
                              [\<lparr>signal_request = req,
                                signal_username = username,
                                signal_ip_address = ip_address\<rparr>]\<rparr>
                  in (Inl (AxesSignalPermissionDenied ''Locked out due to repeated login failures.''), s4)
                else (Inr (), s2))"

definition user_logged_in ::
  "helpers \<Rightarrow> settings \<Rightarrow> int \<Rightarrow> request \<Rightarrow> user \<Rightarrow> state \<Rightarrow> state" where
  "user_logged_in h cfg now req usr s0 =
     (let s1 = clean_expired_user_attempts cfg now s0;
          username = get_username usr;
          credentials = get_credentials h username;
          ip_address = get_client_ip_address h req;
          user_agent = get_client_user_agent h req;
          path_info = get_client_path_info h req;
          http_accept = get_client_http_accept h req;
          client_str = get_client_str h username ip_address user_agent path_info;
          s2 = emit INFO ''AXES: Successful login by %s.'' [S client_str] s1;
          s3 =
            (if \<not> AXES_DISABLE_SUCCESS_ACCESS_LOG cfg then
               s2\<lparr>access_logs := access_logs s2 @
                    [\<lparr>log_username = username,
                      log_ip_address = ip_address,
                      log_user_agent = user_agent,
                      log_http_accept = http_accept,
                      log_path_info = path_info,
                      log_attempt_time = now,
                      log_trusted = True,
                      logout_time = None\<rparr>]\<rparr>
             else s2)
      in
        if AXES_RESET_ON_SUCCESS cfg then
          let (count, s4) = reset_user_attempts h cfg req credentials s3
          in emit INFO ''AXES: Deleted %d failed login attempts by %s from database.''
               [D count, S client_str] s4
        else s3)"

text \<open>Python's truth value of a username: neither null nor the empty string.\<close>

definition truthy :: "string option \<Rightarrow> bool" where
  "truthy u = (case u of None \<Rightarrow> False | Some v \<Rightarrow> v \<noteq> [])"

text \<open>
  The handler calls \<^verbatim>\<open>user.get_username()\<close> right after the sweep, with no guard: on
  \<^verbatim>\<open>None\<close> the call raises, before anything is logged and before the access logs are
  touched.
\<close>

definition user_logged_out ::
  "helpers \<Rightarrow> settings \<Rightarrow> int \<Rightarrow> request \<Rightarrow> user option \<Rightarrow> state
     \<Rightarrow> (exn + unit) \<times> state" where
  "user_logged_out h cfg now req user s0 =
     (let s1 = clean_expired_user_attempts cfg now s0 in
      case user of
        None \<Rightarrow> (Inl AttributeError, s1)
      | Some usr \<Rightarrow>
          let username = get_username usr;
              ip_address = get_client_ip_address h req;
              user_agent = get_client_user_agent h req;
              path_info = get_client_path_info h req;
              client_str = get_client_str h username ip_address user_agent path_info;
              s2 = emit INFO ''AXES: Successful logout by %s.'' [S client_str] s1
          in
            if truthy username \<and> \<not> AXES_DISABLE_ACCESS_LOG cfg then
              (Inr (),
               s2\<lparr>access_logs :=
                    map (\<lambda>l. if log_username l = username \<and> logout_time l = None then
                               l\<lparr>logout_time := Some now\<rparr>
                             else l)
                      (access_logs s2)\<rparr>)
            else (Inr (), s2))"

section \<open>Sequences of failure events\<close>

text \<open>
  The authentication layer calls the failure handler once per failed attempt, one call
  after the other. A failure event is the time of the call, the credentials and the
  request; \<open>process_failures\<close> hands the events to the handler in order, on the state
  the previous call left, and collects what each call returned or raised.
\<close>

type_synonym failure_event = "int \<times> credentials \<times> request"

fun process_failures ::
  "helpers \<Rightarrow> settings \<Rightarrow> failure_event list \<Rightarrow> state \<Rightarrow> (exn + unit) list \<times> state" where
  "process_failures h cfg [] s = ([], s)"
| "process_failures h cfg ((t, cred, req) # es) s =
     (let (r, s') = user_login_failed h cfg t cred (Some req) s;
          (rs, s'') = process_failures h cfg es s'
      in (r # rs, s''))"

text \<open>
  An event is tracked for the identity \<open>k\<close> when its request and credentials resolve
  to \<open>k\<close> and the handler's whitelist check does not exempt it.
\<close>

fun tracked ::
  "helpers \<Rightarrow> settings \<Rightarrow> string option \<times> string \<times> string \<Rightarrow> failure_event \<Rightarrow> bool" where
  "tracked h cfg k (t, cred, req) =
     (client_key h cfg req cred = k \<and> \<not> is_whitelisted h req cred)"

text \<open>
  The events stay within the cool-off window when none arrives later than the cool-off
  period after the one before it (\<open>t\<close> is the time of the event before the list).
\<close>

fun within_window :: "settings \<Rightarrow> int \<Rightarrow> failure_event list \<Rightarrow> bool" where
  "within_window cfg t [] = True"
| "within_window cfg t ((t', cred, req) # es) =
     (\<not> t < t' - cooldown_period cfg \<and> within_window cfg t' es)"

text \<open>What the caller sees when the handler raises the lockout exception.\<close>

definition locked_out :: "exn + unit" where
  "locked_out = Inl (AxesSignalPermissionDenied ''Locked out due to repeated login failures.'')"

text \<open>The record the handler creates for a first failure, with the count it is given.\<close>

definition new_attempt :: "helpers \<Rightarrow> int \<Rightarrow> credentials \<Rightarrow> request \<Rightarrow> int \<Rightarrow> access_attempt" where
  "new_attempt h t cred req n =
     \<lparr>username = get_client_username h req cred,
      ip_address = get_client_ip_address h req,
      user_agent = get_client_user_agent h req,
      get_data = get_query_str h (GET req),
      post_data = get_query_str h (POST req),
      http_accept = get_client_http_accept h req,
      path_info = get_client_path_info h req,
      failures_since_start = n,
      attempt_time = t\<rparr>"

text \<open>What the handler's update writes into a record of the query set.\<close>

definition updated_attempt ::
  "helpers \<Rightarrow> int \<Rightarrow> request \<Rightarrow> int \<Rightarrow> access_attempt \<Rightarrow> access_attempt" where
  "updated_attempt h t req n a =
     a\<lparr>get_data := get_data a @ separator @ get_query_str h (GET req),
       post_data := post_data a @ separator @ get_query_str h (POST req),
       http_accept := get_client_http_accept h req,
       path_info := get_client_path_info h req,
       failures_since_start := n,
       attempt_time := t\<rparr>"

section \<open>Sample data\<close>

text \<open>
  One instance of the helpers, settings, requests and stores, on which the handlers
  are evaluated: the username is read from the credentials, the client's fields from
  the request, the loopback address is whitelisted and the user \<^verbatim>\<open>admin\<close> is exempt
  from lockout.
\<close>

definition example_helpers :: helpers where
  "example_helpers =
     \<lparr>get_client_username = (\<lambda>req cred. map_of cred ''username''),
      get_client_ip_address = REMOTE_ADDR,
      get_client_user_agent = HTTP_USER_AGENT,
      get_client_path_info = PATH_INFO,
      get_client_http_accept = HTTP_ACCEPT,
      get_client_str = (\<lambda>u ip ua p. ip),
      get_credentials = (\<lambda>u. case u of None \<Rightarrow> [] | Some n \<Rightarrow> [(''username'', n)]),
      get_query_str = (\<lambda>q. concat (map (\<lambda>(k, v). k @ ''='' @ v) q)),
      is_whitelisted = (\<lambda>req cred. REMOTE_ADDR req = ''127.0.0.1''),
      is_user_attempt_whitelisted = (\<lambda>req cred. map_of cred ''username'' = Some ''admin'')\<rparr>"

definition example_settings :: settings where
  "example_settings =
     \<lparr>AXES_FAILURE_LIMIT = 3,
      cooldown_period = 60,
      AXES_RESET_ON_SUCCESS = True,
      AXES_DISABLE_ACCESS_LOG = False,
      AXES_DISABLE_SUCCESS_ACCESS_LOG = False,
      identification_policy = ByUsername\<rparr>"

definition request_a :: request where
  "request_a =
     \<lparr>REMOTE_ADDR = ''10.0.0.1'', HTTP_USER_AGENT = ''curl'', PATH_INFO = ''/login'',
      HTTP_ACCEPT = ''*/*'', GET = [], POST = [(''username'', ''x'')]\<rparr>"

definition request_b :: request where
  "request_b =
     \<lparr>REMOTE_ADDR = ''10.0.0.2'', HTTP_USER_AGENT = ''wget'', PATH_INFO = ''/admin'',
      HTTP_ACCEPT = ''text/html'', GET = [], POST = [(''username'', ''x'')]\<rparr>"


definition credentials_x :: credentials where
  "credentials_x = [(''username'', ''x'')]"


definition user_x :: user where
  "user_x = \<lparr>get_username = Some ''x''\<rparr>"

definition empty_state :: state where
  "empty_state = \<lparr>attempts = [], access_logs = [], signals = [], logged = []\<rparr>"

text \<open>The record a first failure of \<open>request_a\<close> at time 0 leaves in the store.\<close>

definition attempt_x :: access_attempt where
  "attempt_x =
     \<lparr>username = Some ''x'', ip_address = ''10.0.0.1'', user_agent = ''curl'',
      get_data = [], post_data = ''username=x'', http_accept = ''*/*'',
      path_info = ''/login'', failures_since_start = 1, attempt_time = 0\<rparr>"


definition login_x :: "int \<Rightarrow> access_log" where
  "login_x t =
     \<lparr>log_username = Some ''x'', log_ip_address = ''10.0.0.1'', log_user_agent = ''curl'',
      log_http_accept = ''*/*'', log_path_info = ''/login'', log_attempt_time = t,
      log_trusted = True, logout_time = None\<rparr>"

section \<open>The store after each operation\<close>

lemma clean_fields [simp]:
  "attempts (clean_expired_user_attempts cfg t s) = filter (\<lambda>a. \<not> expired cfg t a) (attempts s)"
  "access_logs (clean_expired_user_attempts cfg t s) = access_logs s"
  "signals (clean_expired_user_attempts cfg t s) = signals s"
  "logged (clean_expired_user_attempts cfg t s) = logged s"
  by (simp_all add: clean_expired_user_attempts_def)

lemma emit_fields [simp]:
  "attempts (emit lv msg args s) = attempts s"
  "access_logs (emit lv msg args s) = access_logs s"
  "signals (emit lv msg args s) = signals s"
  "logged (emit lv msg args s) = logged s @ [(lv, msg, args)]"
  by (simp_all add: emit_def)

lemma clean_idem:
  "clean_expired_user_attempts cfg t (clean_expired_user_attempts cfg t s) =
   clean_expired_user_attempts cfg t s"
  by (simp add: clean_expired_user_attempts_def)

lemma get_failures_cong:
  "filter (get_user_attempts h cfg req cred t) (attempts s) =
   filter (get_user_attempts h cfg req' cred' t') (attempts s') \<Longrightarrow>
   get_failures h cfg req cred t s = get_failures h cfg req' cred' t' s'"
  by (simp add: get_failures_def)

text \<open>The read already ignores expired records, so the sweep does not change it.\<close>

lemma get_failures_clean:
  "get_failures h cfg req cred t (clean_expired_user_attempts cfg t s) =
   get_failures h cfg req cred t s"
  by (rule get_failures_cong) (auto simp: get_user_attempts_def intro: filter_cong)

lemma get_failures_Max:
  "filter (get_user_attempts h cfg req cred t) (attempts s) \<noteq> [] \<Longrightarrow>
   get_failures h cfg req cred t s =
     Max (set (map failures_since_start (filter (get_user_attempts h cfg req cred t) (attempts s))))"
  by (simp add: get_failures_def aggregate_Max_def)

lemma get_failures_empty:
  "filter (get_user_attempts h cfg req cred t) (attempts s) = [] \<Longrightarrow>
   get_failures h cfg req cred t s = 0"
  by (simp add: get_failures_def aggregate_Max_def)

lemma get_failures_nonzero_ex:
  "get_failures h cfg req cred t s \<noteq> 0 \<Longrightarrow>
   \<exists>a \<in> set (attempts s). get_user_attempts h cfg req cred t a"
proof (rule ccontr)
  assume nz: "get_failures h cfg req cred t s \<noteq> 0"
    and "\<not> (\<exists>a \<in> set (attempts s). get_user_attempts h cfg req cred t a)"
  then have "filter (get_user_attempts h cfg req cred t) (attempts s) = []"
    by (simp add: filter_empty_conv)
  with nz show False by (simp add: get_failures_empty)
qed

lemma get_failures_top:
  assumes mem: "b \<in> set (attempts s)" "get_user_attempts h cfg req cred t b"
      "failures_since_start b = c"
    and all: "\<And>a. a \<in> set (attempts s) \<Longrightarrow> get_user_attempts h cfg req cred t a \<Longrightarrow>
                 failures_since_start a \<le> c"
  shows "get_failures h cfg req cred t s = c"
proof -
  let ?xs = "map failures_since_start (filter (get_user_attempts h cfg req cred t) (attempts s))"
  have ne: "filter (get_user_attempts h cfg req cred t) (attempts s) \<noteq> []"
    using mem by (auto simp: filter_empty_conv)
  have cm: "c \<in> set ?xs" using mem by force
  have "Max (set ?xs) = c"
    by (rule Max_eqI) (use cm all in auto)
  then show ?thesis using get_failures_Max [OF ne] by simp
qed

lemma get_failures_ge:
  assumes a: "a \<in> set (attempts s)" "get_user_attempts h cfg req cred t a"
  shows "failures_since_start a \<le> get_failures h cfg req cred t s"
proof -
  let ?xs = "map failures_since_start (filter (get_user_attempts h cfg req cred t) (attempts s))"
  have ne: "filter (get_user_attempts h cfg req cred t) (attempts s) \<noteq> []"
    using a by (auto simp: filter_empty_conv)
  from a have mem: "failures_since_start a \<in> set ?xs" by force
  have "failures_since_start a \<le> Max (set ?xs)" using mem by (intro Max_ge) auto
  then show ?thesis using get_failures_Max [OF ne] by simp
qed

lemma get_failures_single:
  assumes one: "filter (\<lambda>a. attempt_key cfg a = client_key h cfg req cred) (attempts s) = [a]"
    and act: "\<not> expired cfg t a"
  shows "get_failures h cfg req cred t s = failures_since_start a"
proof -
  have "filter (get_user_attempts h cfg req cred t) (attempts s) =
        filter (\<lambda>a. \<not> expired cfg t a)
          (filter (\<lambda>a. attempt_key cfg a = client_key h cfg req cred) (attempts s))"
    by (auto simp: get_user_attempts_def filter_user_attempts_def intro: filter_cong)
  also have "\<dots> = [a]" using one act by simp
  finally show ?thesis by (simp add: get_failures_def aggregate_Max_def)
qed

lemma get_failures_none:
  assumes "filter (\<lambda>a. attempt_key cfg a = client_key h cfg req cred \<and> \<not> expired cfg t a)
             (attempts s) = []"
  shows "get_failures h cfg req cred t s = 0"
proof -
  have "filter (get_user_attempts h cfg req cred t) (attempts s) =
        filter (\<lambda>a. attempt_key cfg a = client_key h cfg req cred \<and> \<not> expired cfg t a)
          (attempts s)"
    by (auto simp: get_user_attempts_def filter_user_attempts_def intro: filter_cong)
  with assms show ?thesis by (simp add: get_failures_empty)
qed

subsection \<open>One call of the failure handler\<close>

lemma ulf_None:
  "user_login_failed h cfg t cred None s =
     (Inr (),
      emit ERROR
        ''AXES: AxesDatabaseHandler.user_login_failed does not function without a request.'' []
        (clean_expired_user_attempts cfg t s))"
  by (simp add: user_login_failed_def)


lemma ulf_fst:
  "\<not> is_whitelisted h req cred \<Longrightarrow>
   fst (user_login_failed h cfg t cred (Some req) s) =
     (if AXES_FAILURE_LIMIT cfg \<le> 1 + get_failures h cfg req cred t s
      then locked_out else Inr ())"
  by (simp add: user_login_failed_def Let_def get_failures_clean locked_out_def)

lemma ulf_attempts:
  "\<not> is_whitelisted h req cred \<Longrightarrow>
   attempts (snd (user_login_failed h cfg t cred (Some req) s)) =
     (if 1 < 1 + get_failures h cfg req cred t s then
        map (\<lambda>a. if get_user_attempts h cfg req cred t a
                  then updated_attempt h t req (1 + get_failures h cfg req cred t s) a
                  else a)
          (filter (\<lambda>a. \<not> expired cfg t a) (attempts s))
      else
        filter (\<lambda>a. \<not> expired cfg t a) (attempts s) @
          [new_attempt h t cred req (1 + get_failures h cfg req cred t s)])"
  by (simp add: user_login_failed_def Let_def get_failures_clean new_attempt_def
      updated_attempt_def)

lemma ulf_signals:
  "\<not> is_whitelisted h req cred \<Longrightarrow>
   signals (snd (user_login_failed h cfg t cred (Some req) s)) =
     (if AXES_FAILURE_LIMIT cfg \<le> 1 + get_failures h cfg req cred t s
      then signals s @
             [\<lparr>signal_request = req,
               signal_username = get_client_username h req cred,
               signal_ip_address = get_client_ip_address h req\<rparr>]
      else signals s)"
  by (simp add: user_login_failed_def Let_def get_failures_clean)

lemma ulf_access_logs:
  "access_logs (snd (user_login_failed h cfg t cred r s)) = access_logs s"
  by (simp add: user_login_failed_def Let_def split: option.splits)

lemma ulf_clean:
  "user_login_failed h cfg t cred r (clean_expired_user_attempts cfg t s) =
   user_login_failed h cfg t cred r s"
  by (simp add: user_login_failed_def clean_idem)

lemma new_attempt_fields [simp]:
  "failures_since_start (new_attempt h t cred req n) = n"
  "attempt_time (new_attempt h t cred req n) = t"
  "attempt_key cfg (new_attempt h t cred req n) = client_key h cfg req cred"
  by (simp_all add: new_attempt_def attempt_key_def client_key_def)

lemma updated_attempt_fields [simp]:
  "failures_since_start (updated_attempt h t req n a) = n"
  "attempt_time (updated_attempt h t req n a) = t"
  "attempt_key cfg (updated_attempt h t req n a) = attempt_key cfg a"
  "username (updated_attempt h t req n a) = username a"
  "ip_address (updated_attempt h t req n a) = ip_address a"
  "user_agent (updated_attempt h t req n a) = user_agent a"
  by (simp_all add: updated_attempt_def attempt_key_def)

subsection \<open>The count after a tracked failure\<close>

text \<open>
  After a tracked failure at time \<open>t\<close>, the count read for the same identity at a
  time \<open>t'\<close> no later than the cool-off period after \<open>t\<close> is the count that
  failure persisted.
\<close>

lemma get_failures_after_failure:
  assumes nw: "\<not> is_whitelisted h req cred"
    and key: "client_key h cfg req' cred' = client_key h cfg req cred"
    and win: "\<not> t < t' - cooldown_period cfg"
  shows "get_failures h cfg req' cred' t' (snd (user_login_failed h cfg t cred (Some req) s)) =
         1 + get_failures h cfg req cred t s"
proof -
  let ?g = "get_failures h cfg req cred t s"
  let ?s' = "snd (user_login_failed h cfg t cred (Some req) s)"
  let ?upd = "updated_attempt h t req (1 + ?g)"
  let ?new = "new_attempt h t cred req (1 + ?g)"
  have fresh: "\<not> expired cfg t' b" if "attempt_time b = t" for b
    using that win by (simp add: expired_def)
  have upd_match: "get_user_attempts h cfg req' cred' t' (?upd a)"
    if "get_user_attempts h cfg req cred t a" for a
    using that key fresh [of "?upd a"]
    by (simp add: get_user_attempts_def filter_user_attempts_def)
  have new_match: "get_user_attempts h cfg req' cred' t' ?new"
    using key fresh [of ?new]
    by (simp add: get_user_attempts_def filter_user_attempts_def)
  have old_match: "get_user_attempts h cfg req cred t a"
    if "get_user_attempts h cfg req' cred' t' a" "\<not> expired cfg t a" for a
    using that key by (simp add: get_user_attempts_def filter_user_attempts_def)
  show ?thesis
  proof (cases "1 < 1 + ?g")
    case True
    then have A: "attempts ?s' =
        map (\<lambda>a. if get_user_attempts h cfg req cred t a then ?upd a else a)
          (filter (\<lambda>a. \<not> expired cfg t a) (attempts s))"
      using nw by (simp add: ulf_attempts)
    from True have "?g \<noteq> 0" by simp
    then obtain a where a: "a \<in> set (attempts s)" "get_user_attempts h cfg req cred t a"
      using get_failures_nonzero_ex by blast
    then have ne: "\<not> expired cfg t a" by (simp add: get_user_attempts_def)
    have mem: "?upd a \<in> set (attempts ?s')"
      unfolding A using a ne by (auto simp: image_iff intro!: bexI [of _ a])
    show ?thesis
    proof (rule get_failures_top [OF mem upd_match [OF a(2)]])
      show "failures_since_start (?upd a) = 1 + ?g" by simp
    next
      fix b assume b: "b \<in> set (attempts ?s')" "get_user_attempts h cfg req' cred' t' b"
      from b(1) obtain c where c: "c \<in> set (attempts s)" "\<not> expired cfg t c"
          "b = (if get_user_attempts h cfg req cred t c then ?upd c else c)"
        unfolding A by auto
      show "failures_since_start b \<le> 1 + ?g"
      proof (cases "get_user_attempts h cfg req cred t c")
        case True
        with c(3) show ?thesis by simp
      next
        case False
        with c(3) have "b = c" by simp
        with b(2) c(2) old_match have "get_user_attempts h cfg req cred t c" by blast
        with False show ?thesis by simp
      qed
    qed
  next
    case False
    then have A: "attempts ?s' = filter (\<lambda>a. \<not> expired cfg t a) (attempts s) @ [?new]"
      using nw by (simp add: ulf_attempts)
    have mem: "?new \<in> set (attempts ?s')" unfolding A by simp
    show ?thesis
    proof (rule get_failures_top [OF mem new_match])
      show "failures_since_start ?new = 1 + ?g" by simp
    next
      fix b assume b: "b \<in> set (attempts ?s')" "get_user_attempts h cfg req' cred' t' b"
      from b(1) consider "b = ?new" | "b \<in> set (attempts s)" "\<not> expired cfg t b"
        unfolding A by auto
      then show "failures_since_start b \<le> 1 + ?g"
      proof cases
        case 1
        then show ?thesis by simp
      next
        case 2
        with b(2) old_match have "get_user_attempts h cfg req cred t b" by blast
        with 2(1) have "failures_since_start b \<le> ?g" by (rule get_failures_ge)
        then show ?thesis by simp
      qed
    qed
  qed
qed

text \<open>A first failure: the identity has no active record, and gets one with count 1.\<close>

lemma step_first:
  assumes nw: "\<not> is_whitelisted h req cred"
    and none: "filter (\<lambda>a. attempt_key cfg a = client_key h cfg req cred \<and> \<not> expired cfg t a)
                 (attempts s) = []"
  shows "attempts (snd (user_login_failed h cfg t cred (Some req) s)) =
           filter (\<lambda>a. \<not> expired cfg t a) (attempts s) @ [new_attempt h t cred req 1]"
    and "filter (\<lambda>a. attempt_key cfg a = client_key h cfg req cred)
           (attempts (snd (user_login_failed h cfg t cred (Some req) s))) =
         [new_attempt h t cred req 1]"
proof -
  have g: "get_failures h cfg req cred t s = 0" by (rule get_failures_none [OF none])
  show A: "attempts (snd (user_login_failed h cfg t cred (Some req) s)) =
           filter (\<lambda>a. \<not> expired cfg t a) (attempts s) @ [new_attempt h t cred req 1]"
    using nw g by (simp add: ulf_attempts)
  have "filter (\<lambda>a. attempt_key cfg a = client_key h cfg req cred)
          (filter (\<lambda>a. \<not> expired cfg t a) (attempts s)) = []"
    using none by (simp add: conj_commute)
  then show "filter (\<lambda>a. attempt_key cfg a = client_key h cfg req cred)
           (attempts (snd (user_login_failed h cfg t cred (Some req) s))) =
         [new_attempt h t cred req 1]"
    unfolding A by simp
qed

text \<open>A later failure: the one active record of the identity is updated in place.\<close>

lemma step_next:
  assumes nw: "\<not> is_whitelisted h req cred"
    and one: "filter (\<lambda>a. attempt_key cfg a = client_key h cfg req cred) (attempts s) = [a]"
    and act: "\<not> expired cfg t a"
    and pos: "1 \<le> failures_since_start a"
  shows "filter (\<lambda>a. attempt_key cfg a = client_key h cfg req cred)
           (attempts (snd (user_login_failed h cfg t cred (Some req) s))) =
         [updated_attempt h t req (1 + failures_since_start a) a]"
proof -
  let ?k = "client_key h cfg req cred"
  let ?c = "failures_since_start a"
  let ?f = "\<lambda>b. if get_user_attempts h cfg req cred t b
                then updated_attempt h t req (1 + ?c) b else b"
  have g: "get_failures h cfg req cred t s = ?c"
    by (rule get_failures_single [OF one act])
  have keyf: "attempt_key cfg (?f b) = attempt_key cfg b" for b
    by simp
  have "a \<in> set (filter (\<lambda>a. attempt_key cfg a = ?k) (attempts s))"
    unfolding one by simp
  then have ak: "attempt_key cfg a = ?k" by simp
  have A: "attempts (snd (user_login_failed h cfg t cred (Some req) s)) =
           map ?f (filter (\<lambda>a. \<not> expired cfg t a) (attempts s))"
    using nw pos by (simp add: ulf_attempts g)
  have "filter (\<lambda>a. attempt_key cfg a = ?k)
          (map ?f (filter (\<lambda>a. \<not> expired cfg t a) (attempts s))) =
        map ?f (filter (\<lambda>a. attempt_key cfg a = ?k)
          (filter (\<lambda>a. \<not> expired cfg t a) (attempts s)))"
    unfolding filter_map comp_def keyf ..
  also have "filter (\<lambda>a. attempt_key cfg a = ?k) (filter (\<lambda>a. \<not> expired cfg t a) (attempts s)) =
             filter (\<lambda>a. \<not> expired cfg t a) (filter (\<lambda>a. attempt_key cfg a = ?k) (attempts s))"
    by (auto intro: filter_cong)
  also have "\<dots> = [a]" using one act by simp
  also have "map ?f [a] = [?f a]" by simp
  also have "?f a = updated_attempt h t req (1 + ?c) a"
    using ak act by (simp add: get_user_attempts_def filter_user_attempts_def)
  finally show ?thesis unfolding A .
qed

subsection \<open>Runs of tracked failures\<close>

lemma process_failures_Cons:
  "fst (process_failures h cfg ((t, cred, req) # es) s) =
     fst (user_login_failed h cfg t cred (Some req) s) #
     fst (process_failures h cfg es (snd (user_login_failed h cfg t cred (Some req) s)))"
  "snd (process_failures h cfg ((t, cred, req) # es) s) =
     snd (process_failures h cfg es (snd (user_login_failed h cfg t cred (Some req) s)))"
  by (simp_all add: split_beta Let_def)

lemma locked_run:
  "list_all (tracked h cfg k) ((t, cred, req) # es) \<Longrightarrow> within_window cfg t es \<Longrightarrow>
   AXES_FAILURE_LIMIT cfg \<le> 1 + get_failures h cfg req cred t s \<Longrightarrow>
   fst (process_failures h cfg ((t, cred, req) # es) s) = replicate (Suc (length es)) locked_out"
proof (induction es arbitrary: t cred req s)
  case Nil
  then show ?case by (simp add: split_beta ulf_fst)
next
  case (Cons e es)
  obtain t' cred' req' where e: "e = (t', cred', req')" by (cases e)
  let ?s' = "snd (user_login_failed h cfg t cred (Some req) s)"
  from Cons.prems e have nw: "\<not> is_whitelisted h req cred"
    and key: "client_key h cfg req' cred' = client_key h cfg req cred"
    and win: "\<not> t < t' - cooldown_period cfg"
    and tr: "list_all (tracked h cfg k) ((t', cred', req') # es)"
    and ww: "within_window cfg t' es"
    by simp_all
  have "get_failures h cfg req' cred' t' ?s' = 1 + get_failures h cfg req cred t s"
    by (rule get_failures_after_failure [OF nw key win])
  with Cons.prems(3) have "AXES_FAILURE_LIMIT cfg \<le> 1 + get_failures h cfg req' cred' t' ?s'"
    by simp
  from Cons.IH [OF tr ww this]
  have "fst (process_failures h cfg ((t', cred', req') # es) ?s') =
        replicate (Suc (length es)) locked_out" .
  moreover have "fst (user_login_failed h cfg t cred (Some req) s) = locked_out"
    using nw Cons.prems(3) by (simp add: ulf_fst)
  ultimately show ?case unfolding e process_failures_Cons(1) [of h cfg t cred req] by simp
qed

lemma counting_run_next:
  "list_all (tracked h cfg k) es \<Longrightarrow> within_window cfg t0 es \<Longrightarrow>
   filter (\<lambda>a. attempt_key cfg a = k) (attempts s) = [a] \<Longrightarrow>
   1 \<le> failures_since_start a \<Longrightarrow> attempt_time a = t0 \<Longrightarrow>
   failures_since_start a + int (length es) < AXES_FAILURE_LIMIT cfg \<Longrightarrow>
   \<exists>a'. filter (\<lambda>a. attempt_key cfg a = k) (attempts (snd (process_failures h cfg es s))) = [a'] \<and>
        failures_since_start a' = failures_since_start a + int (length es) \<and>
        attempt_time a' = last (t0 # map fst es) \<and>
        username a' = username a \<and> ip_address a' = ip_address a \<and>
        user_agent a' = user_agent a \<and>
        fst (process_failures h cfg es s) = replicate (length es) (Inr ())"
proof (induction es arbitrary: s a t0)
  case Nil
  then show ?case by simp
next
  case (Cons e es)
  obtain t cred req where e: "e = (t, cred, req)" by (cases e)
  let ?s' = "snd (user_login_failed h cfg t cred (Some req) s)"
  let ?a' = "updated_attempt h t req (1 + failures_since_start a) a"
  from Cons.prems e have nw: "\<not> is_whitelisted h req cred"
    and key: "client_key h cfg req cred = k"
    and win: "\<not> t0 < t - cooldown_period cfg"
    and tr: "list_all (tracked h cfg k) es"
    and ww: "within_window cfg t es"
    by simp_all
  have act: "\<not> expired cfg t a" using win Cons.prems(5) by (simp add: expired_def)
  have one: "filter (\<lambda>a. attempt_key cfg a = client_key h cfg req cred) (attempts s) = [a]"
    using Cons.prems(3) key by simp
  have g: "get_failures h cfg req cred t s = failures_since_start a"
    by (rule get_failures_single [OF one act])
  have one': "filter (\<lambda>a. attempt_key cfg a = k) (attempts ?s') = [?a']"
    using step_next [OF nw one act Cons.prems(4)] key by simp
  have r: "fst (user_login_failed h cfg t cred (Some req) s) = Inr ()"
    using nw g Cons.prems(6) by (simp add: ulf_fst)
  have "\<exists>a''. filter (\<lambda>a. attempt_key cfg a = k)
                (attempts (snd (process_failures h cfg es ?s'))) = [a''] \<and>
        failures_since_start a'' = failures_since_start ?a' + int (length es) \<and>
        attempt_time a'' = last (t # map fst es) \<and>
        username a'' = username ?a' \<and> ip_address a'' = ip_address ?a' \<and>
        user_agent a'' = user_agent ?a' \<and>
        fst (process_failures h cfg es ?s') = replicate (length es) (Inr ())"
  proof (rule Cons.IH [OF tr ww one'])
    show "1 \<le> failures_since_start ?a'" using Cons.prems(4) by simp
    show "attempt_time ?a' = t" by simp
    show "failures_since_start ?a' + int (length es) < AXES_FAILURE_LIMIT cfg"
      using Cons.prems(6) by simp
  qed
  then obtain a'' where
    "filter (\<lambda>a. attempt_key cfg a = k) (attempts (snd (process_failures h cfg es ?s'))) = [a'']"
    "failures_since_start a'' = failures_since_start ?a' + int (length es)"
    "attempt_time a'' = last (t # map fst es)"
    "username a'' = username ?a'" "ip_address a'' = ip_address ?a'"
    "user_agent a'' = user_agent ?a'"
    "fst (process_failures h cfg es ?s') = replicate (length es) (Inr ())"
    by blast
  then show ?case
    unfolding e process_failures_Cons using r by (intro exI [of _ a'']) simp
qed

lemma counting_run:
  assumes tr: "list_all (tracked h cfg k) ((t, cred, req) # es)"
    and ww: "within_window cfg t es"
    and none: "filter (\<lambda>a. attempt_key cfg a = k \<and> \<not> expired cfg t a) (attempts s) = []"
    and lim: "1 + int (length es) < AXES_FAILURE_LIMIT cfg"
  shows "\<exists>a. filter (\<lambda>a. attempt_key cfg a = k)
               (attempts (snd (process_failures h cfg ((t, cred, req) # es) s))) = [a] \<and>
             failures_since_start a = 1 + int (length es) \<and>
             attempt_time a = last (t # map fst es) \<and>
             username a = get_client_username h req cred \<and>
             ip_address a = get_client_ip_address h req \<and>
             user_agent a = get_client_user_agent h req \<and>
             fst (process_failures h cfg ((t, cred, req) # es) s) =
               replicate (Suc (length es)) (Inr ())"
proof -
  let ?s' = "snd (user_login_failed h cfg t cred (Some req) s)"
  let ?new = "new_attempt h t cred req 1"
  from tr have nw: "\<not> is_whitelisted h req cred"
    and key: "client_key h cfg req cred = k"
    and tr': "list_all (tracked h cfg k) es"
    by simp_all
  have none': "filter (\<lambda>a. attempt_key cfg a = client_key h cfg req cred \<and> \<not> expired cfg t a)
                 (attempts s) = []"
    using none key by simp
  have g: "get_failures h cfg req cred t s = 0" by (rule get_failures_none [OF none'])
  have one: "filter (\<lambda>a. attempt_key cfg a = k) (attempts ?s') = [?new]"
    using step_first(2) [OF nw none'] key by simp
  have r: "fst (user_login_failed h cfg t cred (Some req) s) = Inr ()"
    using nw g lim by (simp add: ulf_fst)
  have "\<exists>a'. filter (\<lambda>a. attempt_key cfg a = k)
               (attempts (snd (process_failures h cfg es ?s'))) = [a'] \<and>
        failures_since_start a' = failures_since_start ?new + int (length es) \<and>
        attempt_time a' = last (t # map fst es) \<and>
        username a' = username ?new \<and> ip_address a' = ip_address ?new \<and>
        user_agent a' = user_agent ?new \<and>
        fst (process_failures h cfg es ?s') = replicate (length es) (Inr ())"
  proof (rule counting_run_next [OF tr' ww one])
    show "1 \<le> failures_since_start ?new" by simp
    show "attempt_time ?new = t" by simp
    show "failures_since_start ?new + int (length es) < AXES_FAILURE_LIMIT cfg"
      using lim by simp
  qed
  then obtain a' where
    "filter (\<lambda>a. attempt_key cfg a = k) (attempts (snd (process_failures h cfg es ?s'))) = [a']"
    "failures_since_start a' = failures_since_start ?new + int (length es)"
    "attempt_time a' = last (t # map fst es)"
    "username a' = username ?new" "ip_address a' = ip_address ?new"
    "user_agent a' = user_agent ?new"
    "fst (process_failures h cfg es ?s') = replicate (length es) (Inr ())"
    by blast
  then show ?thesis
    unfolding process_failures_Cons using r
    by (intro exI [of _ a']) (simp add: new_attempt_def)
qed

subsection \<open>Login and logout\<close>

lemma uli_attempts:
  "attempts (user_logged_in h cfg t req usr s) =
     (if AXES_RESET_ON_SUCCESS cfg then
        filter (\<lambda>a. \<not> filter_user_attempts h cfg req (get_credentials h (get_username usr)) a)
          (filter (\<lambda>a. \<not> expired cfg t a) (attempts s))
      else filter (\<lambda>a. \<not> expired cfg t a) (attempts s))"
  by (simp add: user_logged_in_def Let_def reset_user_attempts_def)

lemma uli_logged:
  "AXES_RESET_ON_SUCCESS cfg \<Longrightarrow>
   logged (user_logged_in h cfg t req usr s) =
     logged s @
     [(INFO, ''AXES: Successful login by %s.'',
       [S (get_client_str h (get_username usr) (get_client_ip_address h req)
             (get_client_user_agent h req) (get_client_path_info h req))]),
      (INFO, ''AXES: Deleted %d failed login attempts by %s from database.'',
       [D (int (length (filter (filter_user_attempts h cfg req (get_credentials h (get_username usr)))
                          (filter (\<lambda>a. \<not> expired cfg t a) (attempts s))))),
        S (get_client_str h (get_username usr) (get_client_ip_address h req)
             (get_client_user_agent h req) (get_client_path_info h req))])]"
  by (simp add: user_logged_in_def Let_def reset_user_attempts_def)

lemma ulo_None:
  "user_logged_out h cfg t req None s = (Inl AttributeError, clean_expired_user_attempts cfg t s)"
  by (simp add: user_logged_out_def)

lemma ulo_fst:
  "fst (user_logged_out h cfg t req (Some usr) s) = Inr ()"
  by (simp add: user_logged_out_def Let_def)

lemma ulo_access_logs:
  "access_logs (snd (user_logged_out h cfg t req (Some usr) s)) =
     (if truthy (get_username usr) \<and> \<not> AXES_DISABLE_ACCESS_LOG cfg then
        map (\<lambda>l. if log_username l = get_username usr \<and> logout_time l = None
                  then l\<lparr>logout_time := Some t\<rparr> else l)
          (access_logs s)
      else access_logs s)"
  by (simp add: user_logged_out_def Let_def)

section \<open>The claims\<close>

subsection \<open>The threshold check\<close>

text \<open>
  C1: a failure with a request, from a client the whitelist does not exempt, persists the
  new count (one more than the count read from the swept store) in a record of the
  identity stamped with the time of the call. When the new count has reached the failure
  limit the handler sends the lockout signal with the request, the username and the
  address and raises the lockout exception; otherwise it returns and sends no signal.
\<close>

theorem C1_threshold_check:
  assumes nw: "\<not> is_whitelisted h req cred"
  shows "list_ex (\<lambda>a. filter_user_attempts h cfg req cred a \<and>
                     failures_since_start a =
                       1 + get_failures h cfg req cred t (clean_expired_user_attempts cfg t s) \<and>
                     attempt_time a = t)
           (attempts (snd (user_login_failed h cfg t cred (Some req) s))) \<and>
         (if AXES_FAILURE_LIMIT cfg \<le>
               1 + get_failures h cfg req cred t (clean_expired_user_attempts cfg t s)
          then fst (user_login_failed h cfg t cred (Some req) s) = locked_out \<and>
               signals (snd (user_login_failed h cfg t cred (Some req) s)) =
                 signals s @
                 [\<lparr>signal_request = req,
                   signal_username = get_client_username h req cred,
                   signal_ip_address = get_client_ip_address h req\<rparr>]
          else fst (user_login_failed h cfg t cred (Some req) s) = Inr () \<and>
               signals (snd (user_login_failed h cfg t cred (Some req) s)) = signals s)"
proof -
  let ?g = "get_failures h cfg req cred t s"
  let ?s' = "snd (user_login_failed h cfg t cred (Some req) s)"
  let ?P = "\<lambda>a. filter_user_attempts h cfg req cred a \<and> failures_since_start a = 1 + ?g \<and>
                 attempt_time a = t"
  have persisted: "list_ex ?P (attempts ?s')"
  proof (cases "1 < 1 + ?g")
    case True
    then have "?g \<noteq> 0" by simp
    then obtain a where a: "a \<in> set (attempts s)" "get_user_attempts h cfg req cred t a"
      using get_failures_nonzero_ex by blast
    then have "\<not> expired cfg t a" "filter_user_attempts h cfg req cred a"
      by (simp_all add: get_user_attempts_def)
    with a have "updated_attempt h t req (1 + ?g) a \<in> set (attempts ?s')"
      "?P (updated_attempt h t req (1 + ?g) a)"
      using nw True by (auto simp: ulf_attempts image_iff filter_user_attempts_def intro!: bexI [of _ a])
    then show ?thesis unfolding list_ex_iff by blast
  next
    case False
    then have "new_attempt h t cred req (1 + ?g) \<in> set (attempts ?s')"
      using nw by (simp add: ulf_attempts)
    moreover have "?P (new_attempt h t cred req (1 + ?g))"
      by (simp add: filter_user_attempts_def)
    ultimately show ?thesis unfolding list_ex_iff by blast
  qed
  show ?thesis
    unfolding get_failures_clean using persisted nw
    by (simp add: ulf_fst ulf_signals)
qed

theorem C1_threshold_check_witness:
  "\<not> is_whitelisted example_helpers request_a credentials_x \<and>
   fst (user_login_failed example_helpers (example_settings\<lparr>AXES_FAILURE_LIMIT := 2\<rparr>) 10
          credentials_x (Some request_a) (empty_state\<lparr>attempts := [attempt_x]\<rparr>)) = locked_out \<and>
   signals (snd (user_login_failed example_helpers (example_settings\<lparr>AXES_FAILURE_LIMIT := 2\<rparr>) 10
          credentials_x (Some request_a) (empty_state\<lparr>attempts := [attempt_x]\<rparr>))) =
     [\<lparr>signal_request = request_a, signal_username = Some ''x'',
       signal_ip_address = ''10.0.0.1''\<rparr>] \<and>
   fst (user_login_failed example_helpers example_settings 10
          credentials_x (Some request_a) (empty_state\<lparr>attempts := [attempt_x]\<rparr>)) = Inr () \<and>
   signals (snd (user_login_failed example_helpers example_settings 10
          credentials_x (Some request_a) (empty_state\<lparr>attempts := [attempt_x]\<rparr>))) = []"
proof -
  let ?S = "empty_state\<lparr>attempts := [attempt_x]\<rparr>"
  let ?C2 = "example_settings\<lparr>AXES_FAILURE_LIMIT := 2\<rparr>"
  have nw: "\<not> is_whitelisted example_helpers request_a credentials_x"
    by (simp add: example_helpers_def request_a_def)
  have g: "get_failures example_helpers cfg request_a credentials_x 10
             (clean_expired_user_attempts cfg 10 ?S) = 1"
    if "identification_policy cfg = ByUsername" "cooldown_period cfg = 60" for cfg
    using that
    by (simp add: example_helpers_def request_a_def credentials_x_def attempt_x_def
        get_failures_def get_user_attempts_def filter_user_attempts_def
        attempt_key_def client_key_def expired_def aggregate_Max_def)
  have g2: "get_failures example_helpers ?C2 request_a credentials_x 10
             (clean_expired_user_attempts ?C2 10 ?S) = 1"
    by (rule g) (simp_all add: example_settings_def)
  have g3: "get_failures example_helpers example_settings request_a credentials_x 10
             (clean_expired_user_attempts example_settings 10 ?S) = 1"
    by (rule g) (simp_all add: example_settings_def)
  have l: "AXES_FAILURE_LIMIT ?C2 = 2" "AXES_FAILURE_LIMIT example_settings = 3"
    by (simp_all add: example_settings_def)
  have v: "signals ?S = []" "get_client_username example_helpers request_a credentials_x = Some ''x''"
    "get_client_ip_address example_helpers request_a = ''10.0.0.1''"
    by (simp_all add: empty_state_def example_helpers_def request_a_def credentials_x_def)
  from C1_threshold_check [OF nw, of ?C2 10 ?S]
  have a: "fst (user_login_failed example_helpers ?C2 10 credentials_x (Some request_a) ?S) = locked_out \<and>
     signals (snd (user_login_failed example_helpers ?C2 10 credentials_x (Some request_a) ?S)) =
     [\<lparr>signal_request = request_a, signal_username = Some ''x'',
       signal_ip_address = ''10.0.0.1''\<rparr>]"
    unfolding g2 l v by simp
  from C1_threshold_check [OF nw, of example_settings 10 ?S]
  have b: "fst (user_login_failed example_helpers example_settings 10 credentials_x (Some request_a) ?S) = Inr () \<and>
     signals (snd (user_login_failed example_helpers example_settings 10 credentials_x (Some request_a) ?S)) = []"
    unfolding g3 l v by simp
  from nw a b show ?thesis by blast
qed

subsection \<open>Runs of failures of one identity\<close>

text \<open>
  C2: once the failure count of an identity in its active window has reached the failure
  limit, every further tracked failure of that identity is locked out, as long as each
  arrives within the cool-off period of the one before it (so that neither a reset nor the
  sweep has removed the record): every call of the run raises the lockout exception.
\<close>

theorem C2_locked_out_persists:
  assumes "list_all (tracked h cfg k) ((t, cred, req) # es)"
    and "within_window cfg t es"
    and "AXES_FAILURE_LIMIT cfg \<le> get_failures h cfg req cred t s"
  shows "fst (process_failures h cfg ((t, cred, req) # es) s) =
           replicate (Suc (length es)) locked_out"
proof (rule locked_run [OF assms(1,2)])
  from assms(3) show "AXES_FAILURE_LIMIT cfg \<le> 1 + get_failures h cfg req cred t s"
    by simp
qed

theorem C2_locked_out_persists_witness:
  "list_all (tracked example_helpers example_settings (Some ''x'', [], []))
     [(10, credentials_x, request_a), (50, credentials_x, request_b),
      (100, credentials_x, request_a)] \<and>
   within_window example_settings 10
     [(50, credentials_x, request_b), (100, credentials_x, request_a)] \<and>
   AXES_FAILURE_LIMIT example_settings \<le>
     get_failures example_helpers example_settings request_a credentials_x 10
       (empty_state\<lparr>attempts := [attempt_x\<lparr>failures_since_start := 3\<rparr>]\<rparr>) \<and>
   fst (process_failures example_helpers example_settings
          [(10, credentials_x, request_a), (50, credentials_x, request_b),
           (100, credentials_x, request_a)]
          (empty_state\<lparr>attempts := [attempt_x\<lparr>failures_since_start := 3\<rparr>]\<rparr>)) =
     [locked_out, locked_out, locked_out]"
proof -
  let ?S = "empty_state\<lparr>attempts := [attempt_x\<lparr>failures_since_start := 3\<rparr>]\<rparr>"
  have tr: "list_all (tracked example_helpers example_settings (Some ''x'', [], []))
     [(10, credentials_x, request_a), (50, credentials_x, request_b),
      (100, credentials_x, request_a)]"
    by (simp add: client_key_def example_helpers_def example_settings_def request_a_def
        request_b_def credentials_x_def)
  have ww: "within_window example_settings 10
     [(50, credentials_x, request_b), (100, credentials_x, request_a)]"
    by (simp add: example_settings_def)
  have g: "AXES_FAILURE_LIMIT example_settings \<le>
     get_failures example_helpers example_settings request_a credentials_x 10 ?S"
    by (simp add: get_failures_def get_user_attempts_def filter_user_attempts_def
        attempt_key_def client_key_def expired_def aggregate_Max_def example_helpers_def
        example_settings_def request_a_def credentials_x_def attempt_x_def empty_state_def)
  from C2_locked_out_persists [OF tr ww g]
  have "fst (process_failures example_helpers example_settings
          [(10, credentials_x, request_a), (50, credentials_x, request_b),
           (100, credentials_x, request_a)] ?S) = [locked_out, locked_out, locked_out]"
    by (simp add: numeral_2_eq_2)
  with tr ww g show ?thesis by blast
qed

text \<open>
  C3: after N consecutive tracked failures of one identity (1 \<le> N < failure limit),
  each within the cool-off period of the one before it, starting from a store with no
  active record of the identity, the store holds exactly one record of the identity, that
  record is active, and its count is N. It carries the username, address and user agent
  of the first failure, which created it with count 1; every later failure raised its
  count by one. None of the N calls raises.
\<close>

theorem C3_consecutive_failures_counted:
  assumes "list_all (tracked h cfg k) ((t, cred, req) # es)"
    and "within_window cfg t es"
    and "filter (\<lambda>a. attempt_key cfg a = k \<and> \<not> expired cfg t a) (attempts s) = []"
    and "int (length ((t, cred, req) # es)) < AXES_FAILURE_LIMIT cfg"
    and "0 \<le> cooldown_period cfg"
  shows "\<exists>a. filter (\<lambda>a. attempt_key cfg a = k)
               (attempts (snd (process_failures h cfg ((t, cred, req) # es) s))) = [a] \<and>
             filter (\<lambda>a. attempt_key cfg a = k \<and> \<not> expired cfg (last (t # map fst es)) a)
               (attempts (snd (process_failures h cfg ((t, cred, req) # es) s))) = [a] \<and>
             failures_since_start a = int (length ((t, cred, req) # es)) \<and>
             attempt_time a = last (t # map fst es) \<and>
             username a = get_client_username h req cred \<and>
             ip_address a = get_client_ip_address h req \<and>
             user_agent a = get_client_user_agent h req \<and>
             fst (process_failures h cfg ((t, cred, req) # es) s) =
               replicate (length ((t, cred, req) # es)) (Inr ())"
proof -
  let ?s' = "snd (process_failures h cfg ((t, cred, req) # es) s)"
  let ?tl = "last (t # map fst es)"
  from assms(4) have lim: "1 + int (length es) < AXES_FAILURE_LIMIT cfg" by simp
  from counting_run [OF assms(1,2,3) lim] obtain a where
    a: "filter (\<lambda>a. attempt_key cfg a = k) (attempts ?s') = [a]"
      "failures_since_start a = 1 + int (length es)"
      "attempt_time a = ?tl"
      "username a = get_client_username h req cred"
      "ip_address a = get_client_ip_address h req"
      "user_agent a = get_client_user_agent h req"
      "fst (process_failures h cfg ((t, cred, req) # es) s) = replicate (Suc (length es)) (Inr ())"
    by blast
  have act: "\<not> expired cfg ?tl a" using a(3) assms(5) by (simp add: expired_def)
  have "filter (\<lambda>a. attempt_key cfg a = k \<and> \<not> expired cfg ?tl a) (attempts ?s') =
        filter (\<lambda>a. \<not> expired cfg ?tl a) (filter (\<lambda>a. attempt_key cfg a = k) (attempts ?s'))"
    by (auto intro: filter_cong)
  also have "\<dots> = [a]" unfolding a(1) using act by simp
  finally have "filter (\<lambda>a. attempt_key cfg a = k \<and> \<not> expired cfg ?tl a) (attempts ?s') = [a]" .
  with a show ?thesis by (intro exI [of _ a]) simp
qed

theorem C3_consecutive_failures_counted_witness:
  "list_all (tracked example_helpers example_settings (Some ''x'', [], []))
     [(0, credentials_x, request_a), (10, credentials_x, request_b)] \<and>
   within_window example_settings 0 [(10, credentials_x, request_b)] \<and>
   int (length [(0, credentials_x, request_a), (10, credentials_x, request_b)]) <
     AXES_FAILURE_LIMIT example_settings \<and>
   (\<exists>a. filter (\<lambda>a. attempt_key example_settings a = (Some ''x'', [], []))
          (attempts (snd (process_failures example_helpers example_settings
             [(0, credentials_x, request_a), (10, credentials_x, request_b)] empty_state))) = [a] \<and>
        failures_since_start a = 2 \<and> attempt_time a = 10 \<and>
        username a = Some ''x'' \<and> ip_address a = ''10.0.0.1'' \<and> user_agent a = ''curl'') \<and>
   fst (process_failures example_helpers example_settings
          [(0, credentials_x, request_a), (10, credentials_x, request_b)] empty_state) =
     [Inr (), Inr ()]"
proof -
  have tr: "list_all (tracked example_helpers example_settings (Some ''x'', [], []))
     [(0, credentials_x, request_a), (10, credentials_x, request_b)]"
    by (simp add: client_key_def example_helpers_def example_settings_def request_a_def
        request_b_def credentials_x_def)
  have ww: "within_window example_settings 0 [(10, credentials_x, request_b)]"
    by (simp add: example_settings_def)
  have none: "filter (\<lambda>a. attempt_key example_settings a = (Some ''x'', [], []) \<and>
                          \<not> expired example_settings 0 a) (attempts empty_state) = []"
    by (simp add: empty_state_def)
  have lim: "int (length [(0, credentials_x, request_a), (10, credentials_x, request_b)]) <
     AXES_FAILURE_LIMIT example_settings"
    by (simp add: example_settings_def)
  have cool: "0 \<le> cooldown_period example_settings"
    by (simp add: example_settings_def)
  have v: "get_client_username example_helpers request_a credentials_x = Some ''x''"
    "get_client_ip_address example_helpers request_a = ''10.0.0.1''"
    "get_client_user_agent example_helpers request_a = ''curl''"
    by (simp_all add: example_helpers_def request_a_def credentials_x_def)
  from C3_consecutive_failures_counted [OF tr ww none lim cool]
  have "(\<exists>a. filter (\<lambda>a. attempt_key example_settings a = (Some ''x'', [], []))
          (attempts (snd (process_failures example_helpers example_settings
             [(0, credentials_x, request_a), (10, credentials_x, request_b)] empty_state))) = [a] \<and>
        failures_since_start a = 2 \<and> attempt_time a = 10 \<and>
        username a = Some ''x'' \<and> ip_address a = ''10.0.0.1'' \<and> user_agent a = ''curl'') \<and>
   fst (process_failures example_helpers example_settings
          [(0, credentials_x, request_a), (10, credentials_x, request_b)] empty_state) =
     [Inr (), Inr ()]"
    unfolding v by auto
  with tr ww lim show ?thesis by blast
qed

subsection \<open>The whitelist\<close>




subsection \<open>Expiry\<close>

text \<open>
  C5: the handler sweeps before it reads: handling a failure on a store and on the swept
  store is the same. So a tracked failure that finds only expired records of its identity
  leaves, beside the unexpired records of other identities, one fresh record of the
  identity with count 1; the stale records are gone and their count is not carried on.
\<close>

theorem C5_sweep_before_read:
  assumes "\<not> is_whitelisted h req cred"
    and "list_all (expired cfg t) (filter (filter_user_attempts h cfg req cred) (attempts s))"
  shows "user_login_failed h cfg t cred (Some req) s =
           user_login_failed h cfg t cred (Some req) (clean_expired_user_attempts cfg t s) \<and>
         attempts (snd (user_login_failed h cfg t cred (Some req) s)) =
           filter (\<lambda>a. \<not> expired cfg t a) (attempts s) @ [new_attempt h t cred req 1] \<and>
         filter (filter_user_attempts h cfg req cred)
           (attempts (snd (user_login_failed h cfg t cred (Some req) s))) =
           [new_attempt h t cred req 1]"
proof -
  have none: "filter (\<lambda>a. attempt_key cfg a = client_key h cfg req cred \<and> \<not> expired cfg t a)
                (attempts s) = []"
    using assms(2) by (auto simp: list_all_iff filter_empty_conv filter_user_attempts_def)
  have eq: "filter_user_attempts h cfg req cred = (\<lambda>a. attempt_key cfg a = client_key h cfg req cred)"
    by (rule ext) (simp add: filter_user_attempts_def)
  show ?thesis
    unfolding eq using step_first [OF assms(1) none] by (simp add: ulf_clean)
qed

theorem C5_sweep_before_read_witness:
  "\<not> is_whitelisted example_helpers request_b credentials_x \<and>
   filter (filter_user_attempts example_helpers example_settings request_b credentials_x)
     (attempts (empty_state\<lparr>attempts := [attempt_x\<lparr>failures_since_start := 2\<rparr>]\<rparr>)) =
     [attempt_x\<lparr>failures_since_start := 2\<rparr>] \<and>
   expired example_settings 100 (attempt_x\<lparr>failures_since_start := 2\<rparr>) \<and>
   attempts (snd (user_login_failed example_helpers example_settings 100 credentials_x
       (Some request_b) (empty_state\<lparr>attempts := [attempt_x\<lparr>failures_since_start := 2\<rparr>]\<rparr>))) =
     [new_attempt example_helpers 100 credentials_x request_b 1]"
proof -
  let ?S = "empty_state\<lparr>attempts := [attempt_x\<lparr>failures_since_start := 2\<rparr>]\<rparr>"
  have nw: "\<not> is_whitelisted example_helpers request_b credentials_x"
    by (simp add: example_helpers_def request_b_def)
  have f: "filter (filter_user_attempts example_helpers example_settings request_b credentials_x)
             (attempts ?S) = [attempt_x\<lparr>failures_since_start := 2\<rparr>]"
    by (simp add: filter_user_attempts_def attempt_key_def client_key_def example_helpers_def
        example_settings_def request_b_def credentials_x_def attempt_x_def empty_state_def)
  have e: "expired example_settings 100 (attempt_x\<lparr>failures_since_start := 2\<rparr>)"
    by (simp add: expired_def example_settings_def attempt_x_def)
  have stale: "list_all (expired example_settings 100)
      (filter (filter_user_attempts example_helpers example_settings request_b credentials_x)
         (attempts ?S))"
    unfolding f using e by simp
  have sw: "filter (\<lambda>a. \<not> expired example_settings 100 a) (attempts ?S) = []"
    using e by (simp add: empty_state_def)
  from C5_sweep_before_read [OF nw stale]
  have "attempts (snd (user_login_failed example_helpers example_settings 100 credentials_x
       (Some request_b) ?S)) =
     filter (\<lambda>a. \<not> expired example_settings 100 a) (attempts ?S) @
       [new_attempt example_helpers 100 credentials_x request_b 1]"
    by blast
  then have "attempts (snd (user_login_failed example_helpers example_settings 100 credentials_x
       (Some request_b) ?S)) = [new_attempt example_helpers 100 credentials_x request_b 1]"
    unfolding sw by simp
  with nw f e show ?thesis by blast
qed

subsection \<open>The update of an existing record\<close>

text \<open>
  C6, as the claim states it, fails: the update of an existing record also overwrites the
  stored \<open>http_accept\<close> and \<open>path_info\<close> with the values of the later request.
  Here the one record of user \<^verbatim>\<open>x\<close>, created by \<open>request_a\<close>, is updated by a failure of
  \<open>request_b\<close>.
\<close>

theorem C6_update_overwrites_accept_and_path:
  "map failures_since_start (attempts (empty_state\<lparr>attempts := [attempt_x]\<rparr>)) = [1] \<and>
   map http_accept (attempts (empty_state\<lparr>attempts := [attempt_x]\<rparr>)) = [''*/*''] \<and>
   map path_info (attempts (empty_state\<lparr>attempts := [attempt_x]\<rparr>)) = [''/login''] \<and>
   map failures_since_start
     (attempts (snd (user_login_failed example_helpers example_settings 10 credentials_x
        (Some request_b) (empty_state\<lparr>attempts := [attempt_x]\<rparr>)))) = [2] \<and>
   map http_accept
     (attempts (snd (user_login_failed example_helpers example_settings 10 credentials_x
        (Some request_b) (empty_state\<lparr>attempts := [attempt_x]\<rparr>)))) = [''text/html''] \<and>
   map path_info
     (attempts (snd (user_login_failed example_helpers example_settings 10 credentials_x
        (Some request_b) (empty_state\<lparr>attempts := [attempt_x]\<rparr>)))) = [''/admin'']"
proof -
  let ?S = "empty_state\<lparr>attempts := [attempt_x]\<rparr>"
  have nw: "\<not> is_whitelisted example_helpers request_b credentials_x"
    by (simp add: example_helpers_def request_b_def)
  have m: "get_user_attempts example_helpers example_settings request_b credentials_x 10 attempt_x"
    by (simp add: get_user_attempts_def filter_user_attempts_def attempt_key_def client_key_def
        expired_def example_helpers_def example_settings_def request_b_def credentials_x_def
        attempt_x_def)
  then have e: "\<not> expired example_settings 10 attempt_x"
    by (simp add: get_user_attempts_def)
  have a: "attempts ?S = [attempt_x]" by (simp add: empty_state_def)
  have g: "get_failures example_helpers example_settings request_b credentials_x 10 ?S = 1"
    using m by (simp add: get_failures_def aggregate_Max_def a) (simp add: attempt_x_def)
  have A: "attempts (snd (user_login_failed example_helpers example_settings 10 credentials_x
             (Some request_b) ?S)) = [updated_attempt example_helpers 10 request_b 2 attempt_x]"
    using nw m e by (simp add: ulf_attempts g a)
  show ?thesis
    unfolding A a
    by (simp add: updated_attempt_def attempt_x_def example_helpers_def request_b_def)
qed

text \<open>
  C6, amended: a tracked failure that finds a positive count updates in place every
  active record of its identity and no other record: it appends the request's GET and
  POST data, overwrites \<open>http_accept\<close> and \<open>path_info\<close>, sets the count and the
  attempt time, and leaves every other record as it was. The username, address and user
  agent of every record stay what they were.
\<close>

theorem C6_update_keeps_identity_fields:
  assumes "\<not> is_whitelisted h req cred"
    and "1 < 1 + get_failures h cfg req cred t (clean_expired_user_attempts cfg t s)"
  shows "attempts (snd (user_login_failed h cfg t cred (Some req) s)) =
           map (\<lambda>a. if get_user_attempts h cfg req cred t a then
                       a\<lparr>get_data := get_data a @ separator @ get_query_str h (GET req),
                         post_data := post_data a @ separator @ get_query_str h (POST req),
                         http_accept := get_client_http_accept h req,
                         path_info := get_client_path_info h req,
                         failures_since_start :=
                           1 + get_failures h cfg req cred t (clean_expired_user_attempts cfg t s),
                         attempt_time := t\<rparr>
                     else a)
             (attempts (clean_expired_user_attempts cfg t s)) \<and>
         map username (attempts (snd (user_login_failed h cfg t cred (Some req) s))) =
           map username (attempts (clean_expired_user_attempts cfg t s)) \<and>
         map ip_address (attempts (snd (user_login_failed h cfg t cred (Some req) s))) =
           map ip_address (attempts (clean_expired_user_attempts cfg t s)) \<and>
         map user_agent (attempts (snd (user_login_failed h cfg t cred (Some req) s))) =
           map user_agent (attempts (clean_expired_user_attempts cfg t s))"
proof -
  let ?g = "get_failures h cfg req cred t s"
  let ?f = "\<lambda>a. if get_user_attempts h cfg req cred t a
                then updated_attempt h t req (1 + ?g) a else a"
  from assms(2) have upd: "1 < 1 + ?g" by (simp add: get_failures_clean)
  have A: "attempts (snd (user_login_failed h cfg t cred (Some req) s)) =
           map ?f (filter (\<lambda>a. \<not> expired cfg t a) (attempts s))"
    using assms(1) upd by (simp add: ulf_attempts)
  have "username (?f a) = username a" "ip_address (?f a) = ip_address a"
    "user_agent (?f a) = user_agent a" for a
    by simp_all
  then have "map username (map ?f xs) = map username xs"
    "map ip_address (map ?f xs) = map ip_address xs"
    "map user_agent (map ?f xs) = map user_agent xs" for xs
    by (simp_all add: comp_def)
  then show ?thesis
    unfolding A by (simp add: get_failures_clean updated_attempt_def)
qed

theorem C6_update_keeps_identity_fields_witness:
  "\<not> is_whitelisted example_helpers request_b credentials_x \<and>
   1 < 1 + get_failures example_helpers example_settings request_b credentials_x 10
          (clean_expired_user_attempts example_settings 10 (empty_state\<lparr>attempts := [attempt_x]\<rparr>)) \<and>
   get_client_ip_address example_helpers request_b = ''10.0.0.2'' \<and>
   get_client_user_agent example_helpers request_b = ''wget'' \<and>
   map username
     (attempts (snd (user_login_failed example_helpers example_settings 10 credentials_x
        (Some request_b) (empty_state\<lparr>attempts := [attempt_x]\<rparr>)))) = [Some ''x''] \<and>
   map ip_address
     (attempts (snd (user_login_failed example_helpers example_settings 10 credentials_x
        (Some request_b) (empty_state\<lparr>attempts := [attempt_x]\<rparr>)))) = [''10.0.0.1''] \<and>
   map user_agent
     (attempts (snd (user_login_failed example_helpers example_settings 10 credentials_x
        (Some request_b) (empty_state\<lparr>attempts := [attempt_x]\<rparr>)))) = [''curl'']"
proof -
  let ?S = "empty_state\<lparr>attempts := [attempt_x]\<rparr>"
  have nw: "\<not> is_whitelisted example_helpers request_b credentials_x"
    by (simp add: example_helpers_def request_b_def)
  have c: "attempts (clean_expired_user_attempts example_settings 10 ?S) = [attempt_x]"
    by (simp add: expired_def example_settings_def attempt_x_def empty_state_def)
  have g: "1 < 1 + get_failures example_helpers example_settings request_b credentials_x 10
          (clean_expired_user_attempts example_settings 10 ?S)"
    unfolding get_failures_def c
    by (simp add: get_user_attempts_def filter_user_attempts_def attempt_key_def client_key_def
        expired_def aggregate_Max_def example_helpers_def example_settings_def request_b_def
        credentials_x_def attempt_x_def)
  have v: "get_client_ip_address example_helpers request_b = ''10.0.0.2''"
    "get_client_user_agent example_helpers request_b = ''wget''"
    by (simp_all add: example_helpers_def request_b_def)
  have w: "map username [attempt_x] = [Some ''x'']" "map ip_address [attempt_x] = [''10.0.0.1'']"
    "map user_agent [attempt_x] = [''curl'']"
    by (simp_all add: attempt_x_def)
  from C6_update_keeps_identity_fields [OF nw g]
  have "map username
     (attempts (snd (user_login_failed example_helpers example_settings 10 credentials_x
        (Some request_b) ?S))) = [Some ''x''] \<and>
   map ip_address
     (attempts (snd (user_login_failed example_helpers example_settings 10 credentials_x
        (Some request_b) ?S))) = [''10.0.0.1''] \<and>
   map user_agent
     (attempts (snd (user_login_failed example_helpers example_settings 10 credentials_x
        (Some request_b) ?S))) = [''curl'']"
    unfolding c w by blast
  with nw g v show ?thesis by blast
qed

subsection \<open>Reset on a successful login\<close>

text \<open>
  C7, as the claim states it, fails where the failure limit is 1: after the login has
  reset the identity's records, the next failure creates a record with count 1, which has
  reached the limit, so the handler raises the lockout exception instead of returning.
\<close>

theorem C7_first_failure_after_reset_locks_out_at_limit_1:
  "AXES_RESET_ON_SUCCESS (example_settings\<lparr>AXES_FAILURE_LIMIT := 1\<rparr>) \<and>
   0 < AXES_FAILURE_LIMIT (example_settings\<lparr>AXES_FAILURE_LIMIT := 1\<rparr>) \<and>
   client_key example_helpers (example_settings\<lparr>AXES_FAILURE_LIMIT := 1\<rparr>) request_a credentials_x =
     client_key example_helpers (example_settings\<lparr>AXES_FAILURE_LIMIT := 1\<rparr>) request_a
       (get_credentials example_helpers (get_username user_x)) \<and>
   \<not> is_whitelisted example_helpers request_a credentials_x \<and>
   fst (user_login_failed example_helpers (example_settings\<lparr>AXES_FAILURE_LIMIT := 1\<rparr>) 20
          credentials_x (Some request_a)
          (user_logged_in example_helpers (example_settings\<lparr>AXES_FAILURE_LIMIT := 1\<rparr>) 10
             request_a user_x (empty_state\<lparr>attempts := [attempt_x\<lparr>failures_since_start := 2\<rparr>]\<rparr>))) =
     Inl (AxesSignalPermissionDenied ''Locked out due to repeated login failures.'')"
proof -
  let ?C = "example_settings\<lparr>AXES_FAILURE_LIMIT := 1\<rparr>"
  let ?S = "empty_state\<lparr>attempts := [attempt_x\<lparr>failures_since_start := 2\<rparr>]\<rparr>"
  have r: "AXES_RESET_ON_SUCCESS ?C" "0 < AXES_FAILURE_LIMIT ?C" "AXES_FAILURE_LIMIT ?C = 1"
    by (simp_all add: example_settings_def)
  have k: "client_key example_helpers ?C request_a credentials_x =
     client_key example_helpers ?C request_a (get_credentials example_helpers (get_username user_x))"
    by (simp add: client_key_def example_helpers_def user_x_def credentials_x_def)
  have nw: "\<not> is_whitelisted example_helpers request_a credentials_x"
    by (simp add: example_helpers_def request_a_def)
  have "filter (\<lambda>a. attempt_key ?C a = client_key example_helpers ?C request_a credentials_x \<and>
                    \<not> expired ?C 20 a)
          (attempts (user_logged_in example_helpers ?C 10 request_a user_x ?S)) = []"
    unfolding uli_attempts k using r(1)
    by (simp add: filter_user_attempts_def filter_empty_conv)
  then have "get_failures example_helpers ?C request_a credentials_x 20
          (user_logged_in example_helpers ?C 10 request_a user_x ?S) = 0"
    by (rule get_failures_none)
  then have "fst (user_login_failed example_helpers ?C 20 credentials_x (Some request_a)
          (user_logged_in example_helpers ?C 10 request_a user_x ?S)) = locked_out"
    using nw r(3) by (simp add: ulf_fst)
  with r k nw show ?thesis unfolding locked_out_def by blast
qed

text \<open>
  C7, amended: a successful login with reset on success enabled deletes every record of
  the identity, so that its failure count is 0, and logs the number of records it deleted
  (those of the identity that the sweep had left). The next tracked failure of the
  identity creates a fresh record with count 1; it returns normally when the failure limit
  is above 1, and raises the lockout exception when the limit is 1 or less.
\<close>

theorem C7_reset_on_success:
  assumes "AXES_RESET_ON_SUCCESS cfg"
    and "client_key h cfg req' cred' = client_key h cfg req (get_credentials h (get_username usr))"
    and "\<not> is_whitelisted h req' cred'"
  shows "filter (filter_user_attempts h cfg req (get_credentials h (get_username usr)))
           (attempts (user_logged_in h cfg t req usr s)) = [] \<and>
         get_failures h cfg req' cred' t' (user_logged_in h cfg t req usr s) = 0 \<and>
         last (logged (user_logged_in h cfg t req usr s)) =
           (INFO, ''AXES: Deleted %d failed login attempts by %s from database.'',
            [D (int (length (filter (filter_user_attempts h cfg req (get_credentials h (get_username usr)))
                               (attempts (clean_expired_user_attempts cfg t s))))),
             S (get_client_str h (get_username usr) (get_client_ip_address h req)
                  (get_client_user_agent h req) (get_client_path_info h req))]) \<and>
         filter (filter_user_attempts h cfg req' cred')
           (attempts (snd (user_login_failed h cfg t' cred' (Some req')
                             (user_logged_in h cfg t req usr s)))) =
           [new_attempt h t' cred' req' 1] \<and>
         fst (user_login_failed h cfg t' cred' (Some req') (user_logged_in h cfg t req usr s)) =
           (if 1 < AXES_FAILURE_LIMIT cfg then Inr () else locked_out)"
proof -
  let ?s1 = "user_logged_in h cfg t req usr s"
  let ?cred = "get_credentials h (get_username usr)"
  have gone: "filter (filter_user_attempts h cfg req ?cred) (attempts ?s1) = []"
    using assms(1) by (simp add: uli_attempts filter_empty_conv)
  have none: "filter (\<lambda>a. attempt_key cfg a = client_key h cfg req' cred' \<and> \<not> expired cfg t' a)
                (attempts ?s1) = []"
    unfolding uli_attempts assms(2) using assms(1)
    by (simp add: filter_user_attempts_def filter_empty_conv)
  have g: "get_failures h cfg req' cred' t' ?s1 = 0"
    by (rule get_failures_none [OF none])
  have eq: "filter_user_attempts h cfg req' cred' = (\<lambda>a. attempt_key cfg a = client_key h cfg req' cred')"
    by (rule ext) (simp add: filter_user_attempts_def)
  have fresh: "filter (filter_user_attempts h cfg req' cred')
           (attempts (snd (user_login_failed h cfg t' cred' (Some req') ?s1))) =
           [new_attempt h t' cred' req' 1]"
    unfolding eq by (rule step_first(2) [OF assms(3) none])
  have out: "fst (user_login_failed h cfg t' cred' (Some req') ?s1) =
           (if 1 < AXES_FAILURE_LIMIT cfg then Inr () else locked_out)"
    using assms(3) g by (auto simp: ulf_fst)
  have lg: "last (logged ?s1) =
           (INFO, ''AXES: Deleted %d failed login attempts by %s from database.'',
            [D (int (length (filter (filter_user_attempts h cfg req ?cred)
                               (attempts (clean_expired_user_attempts cfg t s))))),
             S (get_client_str h (get_username usr) (get_client_ip_address h req)
                  (get_client_user_agent h req) (get_client_path_info h req))])"
    using assms(1) by (simp add: uli_logged)
  from gone g lg fresh out show ?thesis by blast
qed

theorem C7_reset_on_success_witness:
  "AXES_RESET_ON_SUCCESS example_settings \<and>
   client_key example_helpers example_settings request_b credentials_x =
     client_key example_helpers example_settings request_a
       (get_credentials example_helpers (get_username user_x)) \<and>
   \<not> is_whitelisted example_helpers request_b credentials_x \<and>
   get_failures example_helpers example_settings request_a credentials_x 10
     (empty_state\<lparr>attempts := [attempt_x\<lparr>failures_since_start := 2\<rparr>]\<rparr>) = 2 \<and>
   get_failures example_helpers example_settings request_b credentials_x 20
     (user_logged_in example_helpers example_settings 10 request_a user_x
        (empty_state\<lparr>attempts := [attempt_x\<lparr>failures_since_start := 2\<rparr>]\<rparr>)) = 0 \<and>
   last (logged (user_logged_in example_helpers example_settings 10 request_a user_x
        (empty_state\<lparr>attempts := [attempt_x\<lparr>failures_since_start := 2\<rparr>]\<rparr>))) =
     (INFO, ''AXES: Deleted %d failed login attempts by %s from database.'',
      [D 1, S ''10.0.0.1'']) \<and>
   filter (filter_user_attempts example_helpers example_settings request_b credentials_x)
     (attempts (snd (user_login_failed example_helpers example_settings 20 credentials_x
        (Some request_b)
        (user_logged_in example_helpers example_settings 10 request_a user_x
           (empty_state\<lparr>attempts := [attempt_x\<lparr>failures_since_start := 2\<rparr>]\<rparr>))))) =
     [new_attempt example_helpers 20 credentials_x request_b 1] \<and>
   fst (user_login_failed example_helpers example_settings 20 credentials_x (Some request_b)
          (user_logged_in example_helpers example_settings 10 request_a user_x
             (empty_state\<lparr>attempts := [attempt_x\<lparr>failures_since_start := 2\<rparr>]\<rparr>))) = Inr ()"
proof -
  let ?S = "empty_state\<lparr>attempts := [attempt_x\<lparr>failures_since_start := 2\<rparr>]\<rparr>"
  have r: "AXES_RESET_ON_SUCCESS example_settings" "1 < AXES_FAILURE_LIMIT example_settings"
    by (simp_all add: example_settings_def)
  have k: "client_key example_helpers example_settings request_b credentials_x =
     client_key example_helpers example_settings request_a
       (get_credentials example_helpers (get_username user_x))"
    by (simp add: client_key_def example_helpers_def example_settings_def user_x_def
        credentials_x_def)
  have nw: "\<not> is_whitelisted example_helpers request_b credentials_x"
    by (simp add: example_helpers_def request_b_def)
  have g0: "get_failures example_helpers example_settings request_a credentials_x 10 ?S = 2"
    by (simp add: get_failures_def get_user_attempts_def filter_user_attempts_def
        attempt_key_def client_key_def expired_def aggregate_Max_def example_helpers_def
        example_settings_def request_a_def credentials_x_def attempt_x_def empty_state_def)
  have n: "int (length (filter (filter_user_attempts example_helpers example_settings request_a
                (get_credentials example_helpers (get_username user_x)))
             (attempts (clean_expired_user_attempts example_settings 10 ?S)))) = 1"
    by (simp add: filter_user_attempts_def attempt_key_def client_key_def expired_def
        example_helpers_def example_settings_def request_a_def user_x_def attempt_x_def
        empty_state_def)
  have v: "get_client_str example_helpers (get_username user_x)
             (get_client_ip_address example_helpers request_a)
             (get_client_user_agent example_helpers request_a)
             (get_client_path_info example_helpers request_a) = ''10.0.0.1''"
    by (simp add: example_helpers_def request_a_def)
  note C7_reset_on_success [OF r(1) k nw, where t = 10 and t' = 20 and s = "?S", unfolded n v]
  with r k nw g0 show ?thesis by simp
qed

subsection \<open>A call without a request\<close>

text \<open>
  C8: without a request the failure handler logs one error line and returns: it raises
  nothing, sends no signal, creates no record and updates none (the records left are
  records of the store as they were), and the failure count of every identity is what
  it was.
\<close>

theorem C8_missing_request_is_soft_noop:
  "fst (user_login_failed h cfg t cred None s) = Inr () \<and>
   attempts (snd (user_login_failed h cfg t cred None s)) =
     filter (\<lambda>a. \<not> expired cfg t a) (attempts s) \<and>
   get_failures h cfg req' cred' t (snd (user_login_failed h cfg t cred None s)) =
     get_failures h cfg req' cred' t s \<and>
   signals (snd (user_login_failed h cfg t cred None s)) = signals s \<and>
   access_logs (snd (user_login_failed h cfg t cred None s)) = access_logs s \<and>
   logged (snd (user_login_failed h cfg t cred None s)) =
     logged s @
     [(ERROR,
       ''AXES: AxesDatabaseHandler.user_login_failed does not function without a request.'',
       [])]"
proof -
  have "get_failures h cfg req' cred' t
          (emit ERROR
             ''AXES: AxesDatabaseHandler.user_login_failed does not function without a request.''
             [] (clean_expired_user_attempts cfg t s)) =
        get_failures h cfg req' cred' t (clean_expired_user_attempts cfg t s)"
    by (rule get_failures_cong) simp
  then show ?thesis by (simp add: ulf_None get_failures_clean)
qed

text \<open>
  C10: the sweep runs before the check for a missing request: a call without a request
  still deletes every expired record, so when the store holds an expired record the call
  changes the state.
\<close>

theorem C10_sweep_runs_without_request:
  "attempts (snd (user_login_failed h cfg t cred None s)) =
     filter (\<lambda>a. \<not> expired cfg t a) (attempts s) \<and>
   list_all (\<lambda>a. \<not> expired cfg t a) (attempts (snd (user_login_failed h cfg t cred None s))) \<and>
   (list_ex (expired cfg t) (attempts s) \<longrightarrow>
      length (attempts (snd (user_login_failed h cfg t cred None s))) < length (attempts s) \<and>
      snd (user_login_failed h cfg t cred None s) \<noteq> s)"
proof -
  let ?s' = "snd (user_login_failed h cfg t cred None s)"
  have A: "attempts ?s' = filter (\<lambda>a. \<not> expired cfg t a) (attempts s)"
    by (simp add: ulf_None)
  have B: "list_all (\<lambda>a. \<not> expired cfg t a) (attempts ?s')"
    unfolding A by (simp add: list_all_iff)
  have C: "length (attempts ?s') < length (attempts s)" if "list_ex (expired cfg t) (attempts s)"
    unfolding A using that by (auto simp: list_ex_iff intro!: length_filter_less)
  then have "?s' \<noteq> s" if "list_ex (expired cfg t) (attempts s)"
    using that by force
  with A B C show ?thesis by blast
qed

theorem C10_sweep_runs_without_request_witness:
  "list_ex (expired example_settings 100) (attempts (empty_state\<lparr>attempts := [attempt_x]\<rparr>)) \<and>
   attempts (snd (user_login_failed example_helpers example_settings 100 credentials_x None
                    (empty_state\<lparr>attempts := [attempt_x]\<rparr>))) = [] \<and>
   snd (user_login_failed example_helpers example_settings 100 credentials_x None
          (empty_state\<lparr>attempts := [attempt_x]\<rparr>)) \<noteq> empty_state\<lparr>attempts := [attempt_x]\<rparr>"
  using C10_sweep_runs_without_request [of example_helpers example_settings 100 credentials_x
      "empty_state\<lparr>attempts := [attempt_x]\<rparr>"]
  by (simp add: example_settings_def attempt_x_def empty_state_def expired_def)

subsection \<open>Logout\<close>

text \<open>
  C9, as the claim states it, fails: a logout stamps every open access log of the
  username, not the most recent one only. Here user \<^verbatim>\<open>x\<close> has two open logins, of times
  1 and 5, and the logout at time 10 closes both.
\<close>

theorem C9_logout_stamps_every_open_log:
  "truthy (get_username user_x) \<and> \<not> AXES_DISABLE_ACCESS_LOG example_settings \<and>
   map log_attempt_time (access_logs (empty_state\<lparr>access_logs := [login_x 1, login_x 5]\<rparr>)) =
     [1, 5] \<and>
   map logout_time (access_logs (empty_state\<lparr>access_logs := [login_x 1, login_x 5]\<rparr>)) =
     [None, None] \<and>
   map logout_time
     (access_logs (snd (user_logged_out example_helpers example_settings 10 request_a (Some user_x)
        (empty_state\<lparr>access_logs := [login_x 1, login_x 5]\<rparr>)))) = [Some 10, Some 10]"
  by (simp add: ulo_access_logs truthy_def user_x_def example_settings_def empty_state_def
      login_x_def)

text \<open>
  C9, amended: when the username is known (neither null nor empty) and access logging
  is enabled, a logout returns and stamps its time on every access log of that username
  that has no logout time yet, and on no other; with a null or empty username, or with
  access logging disabled, it returns and leaves the access logs as they are. Without a
  user object the call of \<^verbatim>\<open>get_username\<close> raises right after the sweep, and the
  access logs are as they were as well.
\<close>

theorem C9_logout_stamps_open_logs:
  "(truthy (get_username usr) \<and> \<not> AXES_DISABLE_ACCESS_LOG cfg \<longrightarrow>
      fst (user_logged_out h cfg t req (Some usr) s) = Inr () \<and>
      access_logs (snd (user_logged_out h cfg t req (Some usr) s)) =
        map (\<lambda>l. if log_username l = get_username usr \<and> logout_time l = None
                  then l\<lparr>logout_time := Some t\<rparr> else l)
          (access_logs s)) \<and>
   (\<not> truthy (get_username usr) \<or> AXES_DISABLE_ACCESS_LOG cfg \<longrightarrow>
      fst (user_logged_out h cfg t req (Some usr) s) = Inr () \<and>
      access_logs (snd (user_logged_out h cfg t req (Some usr) s)) = access_logs s) \<and>
   user_logged_out h cfg t req None s =
     (Inl AttributeError, clean_expired_user_attempts cfg t s) \<and>
   access_logs (snd (user_logged_out h cfg t req None s)) = access_logs s"
  by (simp add: ulo_access_logs ulo_fst ulo_None)

theorem C9_logout_stamps_open_logs_witness:
  "truthy (get_username user_x) \<and> \<not> AXES_DISABLE_ACCESS_LOG example_settings \<and>
   access_logs (snd (user_logged_out example_helpers example_settings 10 request_a (Some user_x)
      (empty_state\<lparr>access_logs := [login_x 1, (login_x 5)\<lparr>log_username := Some ''y''\<rparr>,
                                     (login_x 7)\<lparr>logout_time := Some 8\<rparr>]\<rparr>))) =
     [(login_x 1)\<lparr>logout_time := Some 10\<rparr>, (login_x 5)\<lparr>log_username := Some ''y''\<rparr>,
      (login_x 7)\<lparr>logout_time := Some 8\<rparr>] \<and>
   \<not> truthy (get_username (user_x\<lparr>get_username := Some []\<rparr>)) \<and>
   access_logs (snd (user_logged_out example_helpers example_settings 10 request_a
      (Some (user_x\<lparr>get_username := Some []\<rparr>)) (empty_state\<lparr>access_logs := [login_x 1]\<rparr>))) =
     [login_x 1] \<and>
   \<not> truthy (get_username (user_x\<lparr>get_username := None\<rparr>)) \<and>
   access_logs (snd (user_logged_out example_helpers example_settings 10 request_a
      (Some (user_x\<lparr>get_username := None\<rparr>)) (empty_state\<lparr>access_logs := [login_x 1]\<rparr>))) =
     [login_x 1] \<and>
   AXES_DISABLE_ACCESS_LOG (example_settings\<lparr>AXES_DISABLE_ACCESS_LOG := True\<rparr>) \<and>
   access_logs (snd (user_logged_out example_helpers
      (example_settings\<lparr>AXES_DISABLE_ACCESS_LOG := True\<rparr>) 10 request_a (Some user_x)
      (empty_state\<lparr>access_logs := [login_x 1]\<rparr>))) = [login_x 1] \<and>
   fst (user_logged_out example_helpers example_settings 10 request_a None
      (empty_state\<lparr>access_logs := [login_x 1]\<rparr>)) = Inl AttributeError \<and>
   access_logs (snd (user_logged_out example_helpers example_settings 10 request_a None
      (empty_state\<lparr>access_logs := [login_x 1]\<rparr>))) = [login_x 1]"
proof -
  let ?L = "[login_x 1, (login_x 5)\<lparr>log_username := Some ''y''\<rparr>, (login_x 7)\<lparr>logout_time := Some 8\<rparr>]"
  have u: "truthy (get_username user_x)" "\<not> AXES_DISABLE_ACCESS_LOG example_settings"
    "\<not> truthy (get_username (user_x\<lparr>get_username := Some []\<rparr>))"
    "\<not> truthy (get_username (user_x\<lparr>get_username := None\<rparr>))"
    "AXES_DISABLE_ACCESS_LOG (example_settings\<lparr>AXES_DISABLE_ACCESS_LOG := True\<rparr>)"
    by (simp_all add: truthy_def user_x_def example_settings_def)
  have a: "access_logs (empty_state\<lparr>access_logs := xs\<rparr>) = xs" for xs
    by (simp add: empty_state_def)
  have m: "map (\<lambda>l. if log_username l = get_username user_x \<and> logout_time l = None
                  then l\<lparr>logout_time := Some 10\<rparr> else l) ?L =
     [(login_x 1)\<lparr>logout_time := Some 10\<rparr>, (login_x 5)\<lparr>log_username := Some ''y''\<rparr>,
      (login_x 7)\<lparr>logout_time := Some 8\<rparr>]"
    by (simp add: login_x_def user_x_def)
  from C9_logout_stamps_open_logs [of user_x example_settings example_helpers 10 request_a
      "empty_state\<lparr>access_logs := ?L\<rparr>"] u(1,2)
  have c1: "access_logs (snd (user_logged_out example_helpers example_settings 10 request_a
      (Some user_x) (empty_state\<lparr>access_logs := ?L\<rparr>))) =
     [(login_x 1)\<lparr>logout_time := Some 10\<rparr>, (login_x 5)\<lparr>log_username := Some ''y''\<rparr>,
      (login_x 7)\<lparr>logout_time := Some 8\<rparr>]"
    unfolding a m by blast
  from C9_logout_stamps_open_logs [of "user_x\<lparr>get_username := Some []\<rparr>" example_settings
      example_helpers 10 request_a "empty_state\<lparr>access_logs := [login_x 1]\<rparr>"] u(3)
  have c2: "access_logs (snd (user_logged_out example_helpers example_settings 10 request_a
      (Some (user_x\<lparr>get_username := Some []\<rparr>)) (empty_state\<lparr>access_logs := [login_x 1]\<rparr>))) =
      [login_x 1]"
    unfolding a by blast
  from C9_logout_stamps_open_logs [of "user_x\<lparr>get_username := None\<rparr>" example_settings
      example_helpers 10 request_a "empty_state\<lparr>access_logs := [login_x 1]\<rparr>"] u(4)
  have c3: "access_logs (snd (user_logged_out example_helpers example_settings 10 request_a
      (Some (user_x\<lparr>get_username := None\<rparr>)) (empty_state\<lparr>access_logs := [login_x 1]\<rparr>))) =
      [login_x 1]"
    unfolding a by blast
  from C9_logout_stamps_open_logs [of user_x "example_settings\<lparr>AXES_DISABLE_ACCESS_LOG := True\<rparr>"
      example_helpers 10 request_a "empty_state\<lparr>access_logs := [login_x 1]\<rparr>"] u(5)
  have c4: "access_logs (snd (user_logged_out example_helpers
      (example_settings\<lparr>AXES_DISABLE_ACCESS_LOG := True\<rparr>) 10 request_a (Some user_x)
      (empty_state\<lparr>access_logs := [login_x 1]\<rparr>))) = [login_x 1]"
    unfolding a by blast
  from C9_logout_stamps_open_logs [of user_x example_settings example_helpers 10 request_a
      "empty_state\<lparr>access_logs := [login_x 1]\<rparr>"]
  have c5: "fst (user_logged_out example_helpers example_settings 10 request_a None
      (empty_state\<lparr>access_logs := [login_x 1]\<rparr>)) = Inl AttributeError \<and>
    access_logs (snd (user_logged_out example_helpers example_settings 10 request_a None
      (empty_state\<lparr>access_logs := [login_x 1]\<rparr>))) = [login_x 1]"
    unfolding a by simp
  from u c1 c2 c3 c4 c5 show ?thesis by blast
qed

end
